theory Spec2Isabelle
  imports Complex_Main "HOL-Library.AList"
begin

section \<open>Strings of the runtime\<close>

text \<open>
  A string of the program is a sequence of UTF-16 code units; \<open>length\<close>, \<open>substring\<close>,
  \<open>indexOf\<close> and the regular expressions of the source all count code units. A code
  unit is a number below \<open>2^16\<close>; the program never calculates with one, so nothing
  here depends on that bound, and what is proved of all sequences of numbers holds of all
  strings. \<open>js\<close> writes a Basic Latin literal as such a sequence.
\<close>

type_synonym code_unit = nat
type_synonym jstring = "code_unit list"

definition js :: "string \<Rightarrow> jstring" where
  "js s = map of_char s"

text \<open>
  \<open>String.prototype.toLowerCase\<close> is a built-in that reads the Unicode case tables of
  the runtime. The functions below take it as the parameter \<open>lc\<close>. \<open>toLowerCase_basic\<close>
  is what the built-in computes on strings whose code units are Basic Latin or belong to
  a script without case (kana, for instance); the concrete evaluations use it.
\<close>

definition toLowerCase_basic :: "jstring \<Rightarrow> jstring" where
  "toLowerCase_basic s = map (\<lambda>c. if 0x41 \<le> c \<and> c \<le> 0x5A then c + 0x20 else c) s"

text \<open>
  The class \<open>\s\<close> of regular expressions, which is also what \<open>trim\<close> removes:
  WhiteSpace and LineTerminator of the language definition.
\<close>

definition isWhiteSpace :: "code_unit \<Rightarrow> bool" where
  "isWhiteSpace c \<longleftrightarrow>
     c = 0x9 \<or> c = 0xA \<or> c = 0xB \<or> c = 0xC \<or> c = 0xD \<or> c = 0x20 \<or> c = 0xA0 \<or>
     c = 0x1680 \<or> (0x2000 \<le> c \<and> c \<le> 0x200A) \<or> c = 0x2028 \<or> c = 0x2029 \<or>
     c = 0x202F \<or> c = 0x205F \<or> c = 0x3000 \<or> c = 0xFEFF"

definition trim :: "jstring \<Rightarrow> jstring" where
  "trim s = rev (dropWhile isWhiteSpace (rev (dropWhile isWhiteSpace s)))"

text \<open>\<open>s.substring(a, b)\<close>: both bounds are clamped to the length and swapped if needed.\<close>

definition substring :: "jstring \<Rightarrow> nat \<Rightarrow> nat \<Rightarrow> jstring" where
  "substring s a b =
     (let a' = min a (length s); b' = min b (length s)
      in take (max a' b' - min a' b') (drop (min a' b') s))"

subsection \<open>The three regular expressions of \<open>sanitizeTitle\<close>\<close>

text \<open>
  With the flag \<open>i\<close> and no flag \<open>u\<close>, a Basic Latin letter of a pattern matches exactly
  its two cases: a code unit outside Basic Latin is never canonicalised to a Basic Latin
  one.
\<close>

definition ascii_upper :: "code_unit \<Rightarrow> code_unit" where
  "ascii_upper c = (if 0x61 \<le> c \<and> c \<le> 0x7A then c - 0x20 else c)"

definition ci_eq :: "code_unit \<Rightarrow> code_unit \<Rightarrow> bool" where
  "ci_eq p c \<longleftrightarrow> ascii_upper p = ascii_upper c"

fun ci_prefix :: "jstring \<Rightarrow> jstring \<Rightarrow> bool" where
  "ci_prefix [] s = True"
| "ci_prefix (p # ps) [] = False"
| "ci_prefix (p # ps) (c # cs) = (ci_eq p c \<and> ci_prefix ps cs)"

definition is_space :: "code_unit \<Rightarrow> bool" where
  "is_space c \<longleftrightarrow> c = 0x20"

text \<open>
  Each matcher answers, for a suffix of the subject, whether the expression matches at
  its start, and with how many code units. A greedy \<open> *\<close> takes the whole run of spaces:
  giving one back leaves a space where \<open>\(\<close> is required.
\<close>

definition qualifiers :: "jstring list" where
  "qualifiers = [js ''(dub)'', js ''(sub)'', js ''(uncensored)'', js ''(uncut)'',
                 js ''(subbed)'', js ''(dubbed)'']"

text \<open>\<open>/ *(\(dub\)|\(sub\)|\(uncensored\)|\(uncut\)|\(subbed\)|\(dubbed\))/i\<close>\<close>

definition match_qualifier :: "jstring \<Rightarrow> nat option" where
  "match_qualifier s =
     (let t = dropWhile is_space s
      in case find (\<lambda>q. ci_prefix q t) qualifiers of
           None \<Rightarrow> None
         | Some q \<Rightarrow> Some (length s - length t + length q))"

text \<open>
  \<open>/ *\([^)]+audio\)/i\<close>: \<open>[^)]+\<close> cannot cross a closing parenthesis, so the text
  between \<open>(\<close> and the first \<open>)\<close> has to end in \<open>audio\<close>, after at least one other code
  unit.
\<close>

definition match_audio :: "jstring \<Rightarrow> nat option" where
  "match_audio s =
     (let t = dropWhile is_space s
      in case t of
           [] \<Rightarrow> None
         | c # r \<Rightarrow>
             (let u = takeWhile (\<lambda>x. x \<noteq> 0x29) r
              in if c = 0x28 \<and> 6 \<le> length u \<and> length u < length r
                    \<and> ci_prefix (js ''audio'') (drop (length u - 5) u)
                 then Some (length s - length t + length u + 2)
                 else None))"

text \<open>\<open>/ BD( |$)/i\<close>, where \<open>$\<close> is the end of the input (no flag \<open>m\<close>).\<close>

definition match_bd :: "jstring \<Rightarrow> nat option" where
  "match_bd s =
     (case s of
        sp # b # d # r \<Rightarrow>
          if sp = 0x20 \<and> ci_eq 0x42 b \<and> ci_eq 0x44 d
          then (case r of [] \<Rightarrow> Some 3 | c # _ \<Rightarrow> if c = 0x20 then Some 4 else None)
          else None
      | _ \<Rightarrow> None)"

text \<open>
  \<open>s.replace(re, "")\<close> for an expression without the flag \<open>g\<close>: the leftmost match is
  removed, and only that one.
\<close>

fun replace_first :: "(jstring \<Rightarrow> nat option) \<Rightarrow> jstring \<Rightarrow> jstring" where
  "replace_first m [] = []"
| "replace_first m (c # cs) =
     (case m (c # cs) of
        Some n \<Rightarrow> drop n (c # cs)
      | None \<Rightarrow> c # replace_first m cs)"

section \<open>\<open>sanitizeTitle\<close>\<close>

text \<open>\<open>None\<close> is \<open>undefined\<close>; the empty string is falsy and is answered with \<open>undefined\<close> too.\<close>

definition sanitizeTitle :: "(jstring \<Rightarrow> jstring) \<Rightarrow> jstring option \<Rightarrow> jstring option" where
  "sanitizeTitle lc title =
     (case title of
        None \<Rightarrow> None
      | Some t \<Rightarrow>
          if t = [] then None
          else
            (let resTitle = lc t;
                 resTitle = replace_first match_qualifier resTitle;
                 resTitle = replace_first match_audio resTitle;
                 resTitle = replace_first match_bd resTitle;
                 resTitle = trim resTitle;
                 resTitle = substring resTitle 0 99
             in Some resTitle))"

section \<open>Decoded values and errors\<close>

text \<open>
  What a source delivers is a decoded JSON value. An object is the list of its own
  properties, each name once, in the order in which \<open>for ... in\<close> and \<open>Object.entries\<close>
  enumerate them; a number is the decoded value.
\<close>

datatype json =
    JNull
  | JBool bool
  | JNum real
  | JStr jstring
  | JArr "json list"
  | JObj "(jstring \<times> json) list"

text \<open>Every \<open>throw\<close> of the source, and every exception of the runtime it can run into.\<close>

datatype error =
    ConfigurationError    \<comment> \<open>"At least two websites are required to map"\<close>
  | MissingArray          \<comment> \<open>"REST API or GraphQL response should contain an array property"\<close>
  | MissingTitle          \<comment> \<open>"Each item in the array should contain a title property of type string"\<close>
  | TypeError             \<comment> \<open>a property of \<open>null\<close> or \<open>undefined\<close> is read, or a non-function is called\<close>
  | RangeError            \<comment> \<open>"Maximum call stack size exceeded"\<close>
  | BadArguments          \<comment> \<open>thrown by \<open>findBestMatch\<close>\<close>

fun truthy :: "json \<Rightarrow> bool" where
  "truthy JNull = False"
| "truthy (JBool b) = b"
| "truthy (JNum x) = (x \<noteq> 0)"
| "truthy (JStr s) = (s \<noteq> [])"
| "truthy (JArr xs) = True"
| "truthy (JObj ps) = True"

text \<open>A value that may be \<open>undefined\<close> is an option; \<open>undefined\<close> is falsy.\<close>

definition truthy_opt :: "json option \<Rightarrow> bool" where
  "truthy_opt v = (case v of None \<Rightarrow> False | Some x \<Rightarrow> truthy x)"

text \<open>
  \<open>v.name\<close> for a name that no built-in prototype defines (\<open>title\<close>, \<open>english\<close>, \<open>romaji\<close>,
  \<open>native\<close>): reading it from \<open>null\<close> throws, an object answers with its own property, every
  other value with \<open>undefined\<close>.
\<close>

fun get_prop :: "json \<Rightarrow> jstring \<Rightarrow> error + json option" where
  "get_prop JNull name = Inl TypeError"
| "get_prop (JObj ps) name = Inr (map_of ps name)"
| "get_prop v name = Inr None"

fun mapM_err :: "('a \<Rightarrow> error + 'b) \<Rightarrow> 'a list \<Rightarrow> error + 'b list" where
  "mapM_err f [] = Inr []"
| "mapM_err f (x # xs) =
     (case f x of
        Inl e \<Rightarrow> Inl e
      | Inr y \<Rightarrow> (case mapM_err f xs of Inl e \<Rightarrow> Inl e | Inr ys \<Rightarrow> Inr (y # ys)))"

section \<open>The string-similarity capability\<close>

text \<open>
  Modelled from the spec: the package \<open>string-similarity\<close>, which \<open>similarity.ts\<close>
  imports and which is not part of the sources. It scores two strings by the
  Dice coefficient of their bigrams after removing all whitespace, and \<open>findBestMatch\<close>
  returns the first candidate of the highest score. Both arguments are lower-cased by
  \<open>sanitizeTitle\<close> before they get here, so case plays no role. Scores are quotients of
  small integers; they are modelled as reals, which orders them as the runtime's
  floating-point numbers do.
\<close>

definition bigrams :: "jstring \<Rightarrow> (code_unit \<times> code_unit) list" where
  "bigrams s = zip s (tl s)"

definition compareTwoStrings :: "jstring \<Rightarrow> jstring \<Rightarrow> real" where
  "compareTwoStrings first second =
     (let first' = filter (\<lambda>c. \<not> isWhiteSpace c) first;
          second' = filter (\<lambda>c. \<not> isWhiteSpace c) second
      in if first' = second' then 1
         else if length first' < 2 \<or> length second' < 2 then 0
         else
           (let firstBigrams = fold (\<lambda>b m. m(b := m b + 1)) (bigrams first') (\<lambda>_. 0 :: nat);
                intersectionSize =
                  snd (fold (\<lambda>b (m, n). if 0 < m b then (m(b := m b - 1), n + 1) else (m, n))
                         (bigrams second') (firstBigrams, 0 :: nat))
            in 2 * real intersectionSize / real (length first' + length second' - 2)))"

text \<open>The loop of \<open>findBestMatch\<close>: a later candidate replaces the best one only if it scores strictly higher.\<close>

fun pick_best :: "(jstring \<times> real) \<Rightarrow> (jstring \<times> real) list \<Rightarrow> (jstring \<times> real)" where
  "pick_best best [] = best"
| "pick_best best (r # rs) = pick_best (if snd best < snd r then r else best) rs"

text \<open>
  The package rejects a first argument that is not a string and an empty candidate list;
  a candidate that is \<open>undefined\<close> makes the comparison throw.
\<close>

definition findBestMatch :: "jstring option \<Rightarrow> jstring option list \<Rightarrow> error + (jstring \<times> real)" where
  "findBestMatch mainString targetStrings =
     (case mainString of
        None \<Rightarrow> Inl BadArguments
      | Some main \<Rightarrow>
          (case targetStrings of
             [] \<Rightarrow> Inl BadArguments
           | _ # _ \<Rightarrow>
               (case those targetStrings of
                  None \<Rightarrow> Inl TypeError
                | Some targets \<Rightarrow>
                    (case map (\<lambda>t. (t, compareTwoStrings main t)) targets of
                       [] \<Rightarrow> Inl BadArguments
                     | r # rs \<Rightarrow> Inr (pick_best r rs)))))"

section \<open>Object literals used as dictionaries\<close>

text \<open>
  \<open>frequencyMap\<close>, \<open>scoreMap\<close> and \<open>indexMap\<close> are object literals \<open>{}\<close> keyed by
  target strings. Such an object is the list of its own properties in the order of their
  creation; what it does not own it inherits from \<open>Object.prototype\<close>.
\<close>

type_synonym 'a dict = "(jstring \<times> 'a) list"

definition prototype_names :: "jstring list" where
  "prototype_names =
     [js ''constructor'', js ''__defineGetter__'', js ''__defineSetter__'',
      js ''hasOwnProperty'', js ''__lookupGetter__'', js ''__lookupSetter__'',
      js ''isPrototypeOf'', js ''propertyIsEnumerable'', js ''toString'', js ''valueOf'',
      js ''__proto__'', js ''toLocaleString'']"

datatype 'a lookup = Own 'a | Inherited | Undefined

text \<open>\<open>obj[k]\<close> as an expression.\<close>

definition obj_get :: "'a dict \<Rightarrow> jstring \<Rightarrow> 'a lookup" where
  "obj_get obj k =
     (case map_of obj k of
        Some v \<Rightarrow> Own v
      | None \<Rightarrow> if k \<in> set prototype_names then Inherited else Undefined)"

text \<open>
  \<open>obj[k] = v\<close> for a primitive \<open>v\<close>: an existing property keeps its place, a new one
  is created last. The name \<open>__proto__\<close> is an accessor of the prototype, whose setter
  ignores a primitive, so nothing is stored.
\<close>

definition obj_set :: "'a dict \<Rightarrow> jstring \<Rightarrow> 'a \<Rightarrow> 'a dict" where
  "obj_set obj k v = (if k = js ''__proto__'' then obj else AList.update k v obj)"

text \<open>
  \<open>Object.entries\<close> does not enumerate in creation order alone: the keys that are array
  indices (canonical decimal numerals below \<open>2^32 - 1\<close>) come first, in ascending numeric
  order, and the other keys follow in creation order.
\<close>

definition is_digit :: "code_unit \<Rightarrow> bool" where
  "is_digit c \<longleftrightarrow> 0x30 \<le> c \<and> c \<le> 0x39"

definition array_index :: "jstring \<Rightarrow> nat option" where
  "array_index k =
     (case k of
        [] \<Rightarrow> None
      | c # cs \<Rightarrow>
          if list_all is_digit k \<and> (c \<noteq> 0x30 \<or> cs = [])
          then (let n = foldl (\<lambda>a d. 10 * a + (d - 0x30)) 0 k
                in if n < 4294967295 then Some n else None)
          else None)"

definition own_entries :: "'a dict \<Rightarrow> (jstring \<times> 'a) list" where
  "own_entries obj =
     map snd (sort_key fst
       (List.map_filter (\<lambda>p. map_option (\<lambda>n. (n, p)) (array_index (fst p))) obj))
     @ filter (\<lambda>p. array_index (fst p) = None) obj"

text \<open>\<open>xs.indexOf(x)\<close>\<close>

fun indexOf :: "'a list \<Rightarrow> 'a \<Rightarrow> int" where
  "indexOf [] x = - 1"
| "indexOf (y # ys) x =
     (if y = x then 0 else (let i = indexOf ys x in if i = - 1 then - 1 else i + 1))"

section \<open>\<open>FindBestMatchByTitles\<close>\<close>

text \<open>
  \<open>sanitizeTitle\<close> on a value of the runtime: the casts of the callers let any decoded
  value through. A falsy one is answered with \<open>undefined\<close>; a truthy one that is not a
  string has no method \<open>toLowerCase\<close>.
\<close>

definition sanitizeTitle_value :: "(jstring \<Rightarrow> jstring) \<Rightarrow> json option \<Rightarrow> error + jstring option" where
  "sanitizeTitle_value lc title =
     (if \<not> truthy_opt title then Inr None
      else (case title of
              Some (JStr s) \<Rightarrow> Inr (sanitizeTitle lc (Some s))
            | _ \<Rightarrow> Inl TypeError))"

text \<open>
  A value of \<open>frequencyMap\<close> is a count, unless the key is a name of the prototype:
  then \<open>(frequencyMap[k] || 0) + 1\<close> appends \<open>1\<close> to the text of the inherited function,
  and the value is a string.
\<close>

datatype freq = Count nat | Text

record tally =
  frequencyMap :: "freq dict"
  scoreMap :: "real dict"
  indexMap :: "int dict"

text \<open>The body of \<open>matches.forEach\<close>.\<close>

definition tally_step :: "jstring option list \<Rightarrow> jstring \<times> real \<Rightarrow> tally \<Rightarrow> tally" where
  "tally_step resultTitles match t =
     (let target = fst match;
          f = (case obj_get (frequencyMap t) target of
                 Own (Count n) \<Rightarrow> Count ((if n = 0 then 0 else n) + 1)
               | Own Text \<Rightarrow> Text
               | Inherited \<Rightarrow> Text
               | Undefined \<Rightarrow> Count 1)
      in \<lparr> frequencyMap = obj_set (frequencyMap t) target f,
           scoreMap = obj_set (scoreMap t) target (snd match),
           indexMap = (if obj_get (indexMap t) target = Undefined
                       then obj_set (indexMap t) target (indexOf resultTitles (Some target))
                       else indexMap t) \<rparr>)"

definition tally_all :: "jstring option list \<Rightarrow> (jstring \<times> real) list \<Rightarrow> tally" where
  "tally_all resultTitles matches =
     fold (tally_step resultTitles) matches \<lparr> frequencyMap = [], scoreMap = [], indexMap = [] \<rparr>"

text \<open>
  The loop over \<open>Object.entries(frequencyMap)\<close>, on the state
  \<open>(mostCommonMatch, maxFrequency, similarityScore)\<close>. A string value converts to
  \<open>NaN\<close> and is never greater. A score that is not a number is \<open>None\<close>.
\<close>

definition number_of :: "real lookup \<Rightarrow> real option" where
  "number_of l = (case l of Own x \<Rightarrow> Some x | _ \<Rightarrow> None)"

fun most_common ::
  "real dict \<Rightarrow> (jstring \<times> freq) list \<Rightarrow> jstring option \<times> nat \<times> real option
     \<Rightarrow> jstring option \<times> nat \<times> real option" where
  "most_common sm [] st = st"
| "most_common sm ((match, frequency) # es) (m, maxFrequency, sc) =
     most_common sm es
       (case frequency of
          Count n \<Rightarrow>
            if maxFrequency < n then (Some match, n, number_of (obj_get sm match))
            else (m, maxFrequency, sc)
        | Text \<Rightarrow> (m, maxFrequency, sc))"

record match_result =
  mostCommonMatch :: "jstring option"
  mostCommonMatchIndex :: "int option"
  similarityScore :: "real option"

definition vote :: "jstring option list \<Rightarrow> (jstring \<times> real) list \<Rightarrow> match_result" where
  "vote resultTitles matches =
     (let t = tally_all resultTitles matches;
          (m, maxFrequency, sc) = most_common (scoreMap t) (own_entries (frequencyMap t)) (None, 0, Some 0)
      in \<lparr> mostCommonMatch = m,
           mostCommonMatchIndex =
             (case m of
                None \<Rightarrow> Some (- 1)
              | Some k \<Rightarrow>
                  if k = [] then Some (- 1)
                  else (case obj_get (indexMap t) k of Own i \<Rightarrow> Some i | _ \<Rightarrow> None)),
           similarityScore = sc \<rparr>)"

text \<open>\<open>title.name && findBestMatch(sanitizeTitle(title.name)!, resultTitles)\<close>\<close>

definition best_for ::
  "(jstring \<Rightarrow> jstring) \<Rightarrow> json \<Rightarrow> jstring \<Rightarrow> jstring option list
     \<Rightarrow> error + (jstring \<times> real) option" where
  "best_for lc title name resultTitles =
     (case get_prop title name of
        Inl e \<Rightarrow> Inl e
      | Inr v \<Rightarrow>
          if \<not> truthy_opt v then Inr None
          else (case sanitizeTitle_value lc v of
                  Inl e \<Rightarrow> Inl e
                | Inr main \<Rightarrow>
                    (case findBestMatch main resultTitles of
                       Inl e \<Rightarrow> Inl e
                     | Inr b \<Rightarrow> Inr (Some b))))"

definition collect_matches ::
  "(jstring \<Rightarrow> jstring) \<Rightarrow> json \<Rightarrow> jstring option list \<Rightarrow> error + (jstring \<times> real) list" where
  "collect_matches lc title resultTitles =
     (case title of
        JStr s \<Rightarrow>
          (case findBestMatch (sanitizeTitle lc (Some s)) resultTitles of
             Inl e \<Rightarrow> Inl e
           | Inr b \<Rightarrow> Inr [b])
      | _ \<Rightarrow>
          (case best_for lc title (js ''english'') resultTitles of
             Inl e \<Rightarrow> Inl e
           | Inr bestMatch_english \<Rightarrow>
          (case best_for lc title (js ''romaji'') resultTitles of
             Inl e \<Rightarrow> Inl e
           | Inr bestMatch_romaji \<Rightarrow>
          (case best_for lc title (js ''native'') resultTitles of
             Inl e \<Rightarrow> Inl e
           | Inr bestMatch_native \<Rightarrow>
               Inr (List.map_filter id [bestMatch_english, bestMatch_romaji, bestMatch_native])))))"

definition resultTitles_of :: "(jstring \<Rightarrow> jstring) \<Rightarrow> json list \<Rightarrow> error + jstring option list" where
  "resultTitles_of lc results =
     (case mapM_err (\<lambda>r. get_prop r (js ''title'')) results of
        Inl e \<Rightarrow> Inl e
      | Inr ts \<Rightarrow> mapM_err (sanitizeTitle_value lc) (filter (\<lambda>t. t \<noteq> None) ts))"

definition FindBestMatchByTitles ::
  "(jstring \<Rightarrow> jstring) \<Rightarrow> json option \<Rightarrow> json list \<Rightarrow> error + match_result" where
  "FindBestMatchByTitles lc title results =
     (case title of
        None \<Rightarrow> Inr \<lparr> mostCommonMatch = None, mostCommonMatchIndex = Some (- 1), similarityScore = Some 0 \<rparr>
      | Some t \<Rightarrow>
          if \<not> truthy t
          then Inr \<lparr> mostCommonMatch = None, mostCommonMatchIndex = Some (- 1), similarityScore = Some 0 \<rparr>
          else (case resultTitles_of lc results of
                  Inl e \<Rightarrow> Inl e
                | Inr resultTitles \<Rightarrow>
                    (case collect_matches lc t resultTitles of
                       Inl e \<Rightarrow> Inl e
                     | Inr matches \<Rightarrow> Inr (vote resultTitles matches))))"

section \<open>The class \<open>Maplify\<close>\<close>

record website =
  url :: jstring
  isRestAPI :: "bool option"
  query :: "jstring option"
  variables :: "jstring option"
  selectors :: "(jstring \<times> jstring) list option"

record maplify =
  websites :: "website list"

definition Maplify_constructor :: "website list \<Rightarrow> error + maplify" where
  "Maplify_constructor ws =
     (if length ws < 2 then Inl ConfigurationError else Inr \<lparr> websites = ws \<rparr>)"

subsection \<open>\<open>extractData\<close>\<close>

text \<open>
  \<open>findArray\<close> calls itself without any bound; the first argument is the number of
  frames that the call stack of the runtime still has room for, and a call that finds
  none left ends in a \<open>RangeError\<close>. \<open>findArray_loop\<close> is the loop \<open>for (const key in obj)\<close>
  over the values \<open>obj[key]\<close>.

  \<open>for ... in\<close> enumerates the own properties of an object and the positions of a
  string, whose value at a position is the string of that one code unit; \<open>null\<close>,
  numbers and booleans have nothing to enumerate. An object that owns a property
  \<open>hasOwnProperty\<close> shadows the method that the loop calls, and the call of a decoded
  value throws.
\<close>

fun findArray :: "nat \<Rightarrow> json \<Rightarrow> error + json list option"
  and findArray_loop :: "nat \<Rightarrow> json list \<Rightarrow> error + json list option" where
  "findArray 0 obj = Inl RangeError"
| "findArray (Suc n) obj =
     (case obj of
        JArr xs \<Rightarrow> Inr (Some xs)
      | JObj ps \<Rightarrow>
          if ps \<noteq> [] \<and> map_of ps (js ''hasOwnProperty'') \<noteq> None then Inl TypeError
          else findArray_loop n (map snd ps)
      | JStr s \<Rightarrow> findArray_loop n (map (\<lambda>c. JStr [c]) s)
      | _ \<Rightarrow> Inr None)"
| "findArray_loop n [] = Inr None"
| "findArray_loop n (v # vs) =
     (case findArray n v of
        Inl e \<Rightarrow> Inl e
      | Inr (Some result) \<Rightarrow> Inr (Some result)
      | Inr None \<Rightarrow> findArray_loop n vs)"

text \<open>The callback of \<open>arrayData.map\<close>.\<close>

definition check_item :: "json \<Rightarrow> error + json" where
  "check_item item =
     (case get_prop item (js ''title'') of
        Inl e \<Rightarrow> Inl e
      | Inr t \<Rightarrow> if \<not> truthy_opt t then Inl MissingTitle else Inr item)"

definition is_api :: "website \<Rightarrow> bool" where
  "is_api w \<longleftrightarrow> isRestAPI w = Some True \<or> (case query w of None \<Rightarrow> False | Some q \<Rightarrow> q \<noteq> [])"

text \<open>
  The other branch of \<open>extractData\<close> hands the payload to the HTML parser \<open>cheerio\<close>; it is
  the parameter \<open>scrape\<close>.
\<close>

definition extractData ::
  "nat \<Rightarrow> (json \<Rightarrow> website \<Rightarrow> json list) \<Rightarrow> json \<Rightarrow> website \<Rightarrow> error + json list" where
  "extractData stack scrape data w =
     (if is_api w
      then (case findArray stack data of
              Inl e \<Rightarrow> Inl e
            | Inr None \<Rightarrow> Inl MissingArray
            | Inr (Some arrayData) \<Rightarrow> mapM_err check_item arrayData)
      else Inr (scrape data w))"

subsection \<open>\<open>mapTitles\<close>\<close>

text \<open>
  \<open>lowestScore\<close> starts as \<open>Infinity\<close>; \<open>Math.min\<close> answers \<open>NaN\<close> as soon as an argument
  is not a number.
\<close>

datatype num = Num real | Infinity | NaN

definition Math_min :: "num \<Rightarrow> real option \<Rightarrow> num" where
  "Math_min a b =
     (case b of
        None \<Rightarrow> NaN
      | Some y \<Rightarrow> (case a of NaN \<Rightarrow> NaN | Infinity \<Rightarrow> Num y | Num x \<Rightarrow> Num (min x y)))"

text \<open>The keys of \<open>matches\<close>: \<open>base\<close>, and \<open>website2\<close>, \<open>website3\<close>, ... for the other sources.\<close>

datatype source_key = Base | Website nat

record match_group =
  data :: "(source_key \<times> json option) list"
  score :: num

text \<open>\<open>xs[i]\<close> for an index that may be anything: \<open>undefined\<close> out of range.\<close>

definition element :: "'a list \<Rightarrow> int option \<Rightarrow> 'a option" where
  "element xs i =
     (case i of
        None \<Rightarrow> None
      | Some j \<Rightarrow> if 0 \<le> j \<and> j < int (length xs) then Some (xs ! nat j) else None)"

text \<open>
  The loop \<open>for (let i = 1; i < extractedData.length; i++)\<close>, on the state
  \<open>(matches, lowestScore)\<close>; the list holds \<open>extractedData[i]\<close> and what follows it.
\<close>

fun match_sources ::
  "(jstring \<Rightarrow> jstring) \<Rightarrow> json option \<Rightarrow> nat \<Rightarrow> json list list
     \<Rightarrow> (source_key \<times> json option) list \<times> num
     \<Rightarrow> error + (source_key \<times> json option) list \<times> num" where
  "match_sources lc title i [] st = Inr st"
| "match_sources lc title i (otherData # rest) (matches, lowestScore) =
     (case FindBestMatchByTitles lc title otherData of
        Inl e \<Rightarrow> Inl e
      | Inr bestMatch \<Rightarrow>
          match_sources lc title (i + 1) rest
            (if mostCommonMatchIndex bestMatch \<noteq> Some (- 1)
             then (AList.update (Website (i + 1)) (element otherData (mostCommonMatchIndex bestMatch)) matches,
                   Math_min lowestScore (similarityScore bestMatch))
             else (matches, lowestScore)))"

text \<open>The callback of \<open>baseData.forEach\<close>: the group it pushes, if any.\<close>

definition map_item ::
  "(jstring \<Rightarrow> jstring) \<Rightarrow> json list list \<Rightarrow> json \<Rightarrow> error + match_group option" where
  "map_item lc others baseItem =
     (if truthy baseItem \<and> (case get_prop baseItem (js ''title'') of Inl e \<Rightarrow> False | Inr t \<Rightarrow> truthy_opt t)
      then (case get_prop baseItem (js ''title'') of
              Inl e \<Rightarrow> Inl e
            | Inr title \<Rightarrow>
                (case match_sources lc title 1 others ([(Base, Some baseItem)], Infinity) of
                   Inl e \<Rightarrow> Inl e
                 | Inr (matches, lowestScore) \<Rightarrow>
                     Inr (if 1 < length matches
                          then Some \<lparr> data = matches, score = lowestScore \<rparr>
                          else None)))
      else Inr None)"

fun for_each :: "('a \<Rightarrow> error + 'b option) \<Rightarrow> 'a list \<Rightarrow> error + 'b list" where
  "for_each f [] = Inr []"
| "for_each f (x # xs) =
     (case f x of
        Inl e \<Rightarrow> Inl e
      | Inr r \<Rightarrow>
          (case for_each f xs of
             Inl e \<Rightarrow> Inl e
           | Inr rs \<Rightarrow> Inr (case r of None \<Rightarrow> rs | Some g \<Rightarrow> g # rs)))"

text \<open>\<open>extractedData[0]\<close> of an empty list is \<open>undefined\<close>, and \<open>forEach\<close> of it throws.\<close>

definition mapTitles :: "(jstring \<Rightarrow> jstring) \<Rightarrow> json list list \<Rightarrow> error + match_group list" where
  "mapTitles lc extractedData =
     (case extractedData of
        [] \<Rightarrow> Inl TypeError
      | baseData # others \<Rightarrow> for_each (map_item lc others) baseData)"

section \<open>Notions used in the statements\<close>

text \<open>An expression matches somewhere in a string: at the start of one of its non-empty suffixes.\<close>

fun has_match :: "(jstring \<Rightarrow> nat option) \<Rightarrow> jstring \<Rightarrow> bool" where
  "has_match m [] = False"
| "has_match m (c # cs) = (m (c # cs) \<noteq> None \<or> has_match m cs)"


text \<open>\<open>item.title\<close> has a value and that value is falsy (\<open>undefined\<close> included).\<close>

definition title_falsy :: "json \<Rightarrow> bool" where
  "title_falsy item =
     (case get_prop item (js ''title'') of Inl e \<Rightarrow> False | Inr t \<Rightarrow> \<not> truthy_opt t)"

text \<open>Values used in the examples.\<close>

definition entry :: "string \<Rightarrow> json" where
  "entry t = JObj [(js ''title'', JStr (js t))]"

definition rest_site :: website where
  "rest_site = \<lparr> url = js ''https://a.example/search?q='', isRestAPI = Some True, query = None,
                 variables = None, selectors = None \<rparr>"

text \<open>The score of the first and of the last match that names a target.\<close>

definition first_score :: "(jstring \<times> real) list \<Rightarrow> jstring \<Rightarrow> real option" where
  "first_score matches k = map_option snd (find (\<lambda>m. fst m = k) matches)"

definition last_score :: "(jstring \<times> real) list \<Rightarrow> jstring \<Rightarrow> real option" where
  "last_score matches k = first_score (rev matches) k"

text \<open>
  The candidates that survive \<open>filter((t) => t !== undefined)\<close>, and the normalized
  title of a candidate.
\<close>

definition titled :: "json list \<Rightarrow> json list" where
  "titled results = filter (\<lambda>r. get_prop r (js ''title'') \<noteq> Inr None) results"

definition sanitized_title :: "(jstring \<Rightarrow> jstring) \<Rightarrow> json \<Rightarrow> error + jstring option" where
  "sanitized_title lc r =
     (case get_prop r (js ''title'') of Inl e \<Rightarrow> Inl e | Inr t \<Rightarrow> sanitizeTitle_value lc t)"

definition title_object :: "(string \<times> jstring) list \<Rightarrow> json" where
  "title_object reps = JObj (map (\<lambda>(name, s). (js name, JStr s)) reps)"

text \<open>The title of \<open>Spy x Family\<close> in its original script: eight katakana code units.\<close>

definition supai_famirii :: jstring where
  "supai_famirii = [0x30B9, 0x30D1, 0x30A4, 0x30D5, 0x30A1, 0x30DF, 0x30EA, 0x30FC]"

text \<open>
  The similarity scores of the matches recorded for a base title: one for every other
  source whose best match comes with an index other than \<open>-1\<close>.
\<close>

definition recorded_scores :: "(jstring \<Rightarrow> jstring) \<Rightarrow> json option \<Rightarrow> json list list \<Rightarrow> real list" where
  "recorded_scores lc title others =
     concat (map (\<lambda>otherData.
        case FindBestMatchByTitles lc title otherData of
          Inl e \<Rightarrow> []
        | Inr bestMatch \<Rightarrow>
            if mostCommonMatchIndex bestMatch \<noteq> Some (- 1)
            then (case similarityScore bestMatch of None \<Rightarrow> [] | Some s \<Rightarrow> [s])
            else []) others)"

section \<open>The constructor\<close>

text \<open>
  C7. Constructing a \<open>Maplify\<close> with fewer than two website configurations raises the
  configuration error, and with two or more it succeeds and keeps the configurations.
  The constructor is a function of its arguments alone: it issues no request.
\<close>

theorem constructor_two_websites:
  "(length ws < 2 \<longrightarrow> Maplify_constructor ws = Inl ConfigurationError)
   \<and> (2 \<le> length ws \<longrightarrow> Maplify_constructor ws = Inr \<lparr> websites = ws \<rparr>)"
  by (simp add: Maplify_constructor_def)

theorem constructor_two_websites_witness:
  "length [rest_site] < 2
   \<and> Maplify_constructor [rest_site] = Inl ConfigurationError
   \<and> 2 \<le> length [rest_site, rest_site]
   \<and> Maplify_constructor [rest_site, rest_site] = Inr \<lparr> websites = [rest_site, rest_site] \<rparr>"
  using constructor_two_websites [of "[rest_site]"]
        constructor_two_websites [of "[rest_site, rest_site]"]
  by simp

section \<open>Extraction from an API payload\<close>

lemma findArray_unit_string: "findArray n (JStr [c]) = Inl RangeError"
  by (induction n) simp_all

lemma findArray_string: "s \<noteq> [] \<Longrightarrow> findArray n (JStr s) = Inl RangeError"
proof (cases n)
  case 0
  then show ?thesis by simp
next
  case (Suc m)
  assume "s \<noteq> []"
  then obtain c cs where "s = c # cs" by (cases s) auto
  with Suc show ?thesis by (simp add: findArray_unit_string)
qed

text \<open>
  C6. \<open>extractData\<close> is to return the elements of the first array of the payload in
  traversal order. On the payload \<open>{"status": "ok", "results": [{"title": "A"}]}\<close> it does
  not: the traversal enters the string \<open>"ok"\<close>, whose only position holds a string of one
  code unit, whose only position holds that string again, and so on until the call
  stack is exhausted, however deep it is.
\<close>

theorem extractData_string_before_array:
  "extractData stack scrape
     (JObj [(js ''status'', JStr (js ''ok'')), (js ''results'', JArr [entry ''A''])]) rest_site
   = Inl RangeError"
proof -
  have "findArray stack (JObj [(js ''status'', JStr (js ''ok'')), (js ''results'', JArr [entry ''A''])])
        = Inl RangeError"
  proof (cases stack)
    case 0
    then show ?thesis by simp
  next
    case (Suc n)
    have "js ''ok'' \<noteq> []" by (simp add: js_def)
    then have "findArray n (JStr (js ''ok'')) = Inl RangeError" by (rule findArray_string)
    moreover have "js ''status'' \<noteq> js ''hasOwnProperty''" "js ''results'' \<noteq> js ''hasOwnProperty''"
      by (simp_all add: js_def)
    ultimately show ?thesis using Suc by simp
  qed
  then show ?thesis by (simp add: extractData_def is_api_def rest_site_def)
qed

lemma check_item_MissingTitle: "check_item item = Inl MissingTitle \<longleftrightarrow> title_falsy item"
  by (cases item) (simp_all add: check_item_def title_falsy_def)

lemma check_item_Inr: "check_item item = Inr y \<longleftrightarrow> y = item \<and> item \<noteq> JNull \<and> \<not> title_falsy item"
  by (cases item) (auto simp: check_item_def title_falsy_def)

lemma mapM_err_check_item_MissingTitle:
  "mapM_err check_item xs = Inl MissingTitle \<longleftrightarrow>
     (\<exists>i<length xs. title_falsy (xs ! i) \<and> (\<forall>j<i. xs ! j \<noteq> JNull \<and> \<not> title_falsy (xs ! j)))"
proof (induction xs)
  case Nil
  then show ?case by simp
next
  case (Cons x xs)
  show ?case
  proof (cases "check_item x")
    case (Inl e)
    then have nok: "x = JNull \<or> title_falsy x"
      using check_item_Inr [of x x] by auto
    show ?thesis
    proof (cases "e = MissingTitle")
      case True
      with Inl have "title_falsy x" by (simp add: check_item_MissingTitle)
      then have "\<exists>i<length (x # xs). title_falsy ((x # xs) ! i)
                   \<and> (\<forall>j<i. (x # xs) ! j \<noteq> JNull \<and> \<not> title_falsy ((x # xs) ! j))"
        by (intro exI [of _ 0]) simp
      with Inl True show ?thesis by simp
    next
      case False
      with Inl have nf: "\<not> title_falsy x" using check_item_MissingTitle [of x] by auto
      with nok have null: "x = JNull" by simp
      have "\<not> (\<exists>i<length (x # xs). title_falsy ((x # xs) ! i)
                   \<and> (\<forall>j<i. (x # xs) ! j \<noteq> JNull \<and> \<not> title_falsy ((x # xs) ! j)))"
      proof
        assume "\<exists>i<length (x # xs). title_falsy ((x # xs) ! i)
                   \<and> (\<forall>j<i. (x # xs) ! j \<noteq> JNull \<and> \<not> title_falsy ((x # xs) ! j))"
        then obtain i where i: "title_falsy ((x # xs) ! i)"
          "\<forall>j<i. (x # xs) ! j \<noteq> JNull \<and> \<not> title_falsy ((x # xs) ! j)" by blast
        show False
        proof (cases i)
          case 0
          with i(1) nf show False by simp
        next
          case (Suc k)
          with i(2) have "(x # xs) ! 0 \<noteq> JNull" by blast
          with null show False by simp
        qed
      qed
      with Inl False show ?thesis by simp
    qed
  next
    case (Inr y)
    then have ok: "x \<noteq> JNull" "\<not> title_falsy x" by (simp_all add: check_item_Inr)
    have "(\<exists>i<length (x # xs). title_falsy ((x # xs) ! i)
              \<and> (\<forall>j<i. (x # xs) ! j \<noteq> JNull \<and> \<not> title_falsy ((x # xs) ! j)))
          \<longleftrightarrow> (\<exists>i<length xs. title_falsy (xs ! i) \<and> (\<forall>j<i. xs ! j \<noteq> JNull \<and> \<not> title_falsy (xs ! j)))"
      (is "?L \<longleftrightarrow> ?R")
    proof
      assume ?L
      then obtain i where i: "i < length (x # xs)" "title_falsy ((x # xs) ! i)"
          "\<forall>j<i. (x # xs) ! j \<noteq> JNull \<and> \<not> title_falsy ((x # xs) ! j)" by blast
      from i(2) ok obtain k where k: "i = Suc k" by (cases i) auto
      have "\<forall>j<k. xs ! j \<noteq> JNull \<and> \<not> title_falsy (xs ! j)"
      proof (intro allI impI)
        fix j assume "j < k"
        then have "Suc j < i" using k by simp
        with i(3) have "(x # xs) ! Suc j \<noteq> JNull \<and> \<not> title_falsy ((x # xs) ! Suc j)" by blast
        then show "xs ! j \<noteq> JNull \<and> \<not> title_falsy (xs ! j)" by simp
      qed
      with i(1,2) k show ?R by (intro exI [of _ k]) simp
    next
      assume ?R
      then obtain k where k: "k < length xs" "title_falsy (xs ! k)"
          "\<forall>j<k. xs ! j \<noteq> JNull \<and> \<not> title_falsy (xs ! j)" by blast
      have "\<forall>j<Suc k. (x # xs) ! j \<noteq> JNull \<and> \<not> title_falsy ((x # xs) ! j)"
      proof (intro allI impI)
        fix j assume "j < Suc k"
        then show "(x # xs) ! j \<noteq> JNull \<and> \<not> title_falsy ((x # xs) ! j)"
          using ok k(3) by (cases j) auto
      qed
      with k(1,2) show ?L by (intro exI [of _ "Suc k"]) simp
    qed
    with Inr Cons.IH show ?thesis by (auto split: sum.splits)
  qed
qed

lemma check_item_ok: "item \<noteq> JNull \<Longrightarrow> \<not> title_falsy item \<Longrightarrow> check_item item = Inr item"
  by (simp add: check_item_Inr)

lemma mapM_err_check_item_Inr:
  "(\<forall>x\<in>set xs. x \<noteq> JNull \<and> \<not> title_falsy x) \<Longrightarrow> mapM_err check_item xs = Inr xs"
  by (induction xs) (simp_all add: check_item_ok)

text \<open>
  C9. In API mode the extraction error for titles is raised exactly when the title of
  an element is falsy: missing, or present as the empty string, \<open>null\<close>, \<open>0\<close> or \<open>false\<close>.
  For a single element this is the test of the callback; for the array, the error is
  raised iff an element with a falsy title is reached, that is, iff every element before
  it has passed (an element that is \<open>null\<close> has no title to read and ends the extraction
  with a \<open>TypeError\<close> instead). If all elements pass, they are returned in order.
\<close>

theorem extractData_falsy_title:
  assumes "is_api w" and "findArray stack payload = Inr (Some arrayData)"
  shows "(\<forall>item. check_item item = Inl MissingTitle \<longleftrightarrow> title_falsy item)
     \<and> (extractData stack scrape payload w = Inl MissingTitle \<longleftrightarrow>
          (\<exists>i<length arrayData. title_falsy (arrayData ! i)
             \<and> (\<forall>j<i. arrayData ! j \<noteq> JNull \<and> \<not> title_falsy (arrayData ! j))))
     \<and> ((\<forall>x\<in>set arrayData. x \<noteq> JNull \<and> \<not> title_falsy x) \<longrightarrow>
          extractData stack scrape payload w = Inr arrayData)
     \<and> title_falsy (JObj []) \<and> title_falsy (JObj [(js ''title'', JStr [])])
     \<and> title_falsy (JObj [(js ''title'', JNull)]) \<and> title_falsy (JObj [(js ''title'', JNum 0)])"
proof -
  have e: "extractData stack scrape payload w = mapM_err check_item arrayData"
    using assms by (simp add: extractData_def)
  show ?thesis
    unfolding e
    by (simp add: check_item_MissingTitle mapM_err_check_item_MissingTitle
        mapM_err_check_item_Inr title_falsy_def truthy_opt_def)
qed

theorem extractData_falsy_title_witness:
  "is_api rest_site
   \<and> findArray 3 (JObj [(js ''data'', JArr [entry ''A'', JObj [(js ''title'', JStr [])]])])
       = Inr (Some [entry ''A'', JObj [(js ''title'', JStr [])]])
   \<and> title_falsy ([entry ''A'', JObj [(js ''title'', JStr [])]] ! 1)
   \<and> extractData 3 (\<lambda>p w. []) (JObj [(js ''data'', JArr [entry ''A'', JObj [(js ''title'', JStr [])]])]) rest_site
       = Inl MissingTitle
   \<and> findArray 3 (JObj [(js ''data'', JArr [entry ''A'', entry ''B''])])
       = Inr (Some [entry ''A'', entry ''B''])
   \<and> extractData 3 (\<lambda>p w. []) (JObj [(js ''data'', JArr [entry ''A'', entry ''B''])]) rest_site
       = Inr [entry ''A'', entry ''B'']"
proof -
  have api: "is_api rest_site" by (simp add: is_api_def rest_site_def)
  have k: "js ''data'' \<noteq> js ''hasOwnProperty''" by (simp add: js_def)
  have f1: "findArray 3 (JObj [(js ''data'', JArr [entry ''A'', JObj [(js ''title'', JStr [])]])])
       = Inr (Some [entry ''A'', JObj [(js ''title'', JStr [])]])"
    using k by (simp add: numeral_3_eq_3)
  have f2: "findArray 3 (JObj [(js ''data'', JArr [entry ''A'', entry ''B''])])
       = Inr (Some [entry ''A'', entry ''B''])"
    using k by (simp add: numeral_3_eq_3)
  have t1: "title_falsy (JObj [(js ''title'', JStr [])])"
    by (simp add: title_falsy_def truthy_opt_def)
  have t2: "\<not> title_falsy (entry ''A'')" "\<not> title_falsy (entry ''B'')"
    by (simp_all add: title_falsy_def truthy_opt_def entry_def js_def)
  have n: "entry ''A'' \<noteq> JNull" "entry ''B'' \<noteq> JNull" by (simp_all add: entry_def)
  have ex: "\<exists>i<length [entry ''A'', JObj [(js ''title'', JStr [])]].
              title_falsy ([entry ''A'', JObj [(js ''title'', JStr [])]] ! i)
              \<and> (\<forall>j<i. [entry ''A'', JObj [(js ''title'', JStr [])]] ! j \<noteq> JNull
                      \<and> \<not> title_falsy ([entry ''A'', JObj [(js ''title'', JStr [])]] ! j))"
    using t1 t2 n by (intro exI [of _ 1]) simp
  from extractData_falsy_title [OF api f1, of "\<lambda>p w. []"] ex
  have r1: "extractData 3 (\<lambda>p w. []) (JObj [(js ''data'', JArr [entry ''A'', JObj [(js ''title'', JStr [])]])]) rest_site
       = Inl MissingTitle" by blast
  from extractData_falsy_title [OF api f2, of "\<lambda>p w. []"] t2 n
  have r2: "extractData 3 (\<lambda>p w. []) (JObj [(js ''data'', JArr [entry ''A'', entry ''B''])]) rest_site
       = Inr [entry ''A'', entry ''B'']" by simp
  from api f1 f2 t1 r1 r2 show ?thesis by simp
qed

section \<open>Normalization\<close>

lemma replace_first_no_match: "\<not> has_match m s \<Longrightarrow> replace_first m s = s"
  by (induction s) auto

lemma substring_0: "substring s 0 n = take n s"
  by (simp add: substring_def Let_def min_def)




lemmas sanitize_eval =
  sanitizeTitle_def js_def toLowerCase_basic_def match_qualifier_def match_audio_def
  match_bd_def qualifiers_def trim_def substring_def is_space_def isWhiteSpace_def ci_eq_def
  ascii_upper_def








section \<open>The tally of \<open>FindBestMatchByTitles\<close>\<close>


lemma proto_in: "js ''__proto__'' \<in> set prototype_names"
  by (simp add: prototype_names_def)

lemma obj_get_plain:
  "k \<notin> set prototype_names \<Longrightarrow>
     obj_get obj k = (case map_of obj k of Some v \<Rightarrow> Own v | None \<Rightarrow> Undefined)"
  by (simp add: obj_get_def)

lemma map_of_obj_set:
  "map_of (obj_set obj k v) k' =
     (if k = js ''__proto__'' then map_of obj k' else ((map_of obj)(k \<mapsto> v)) k')"
  by (simp add: obj_set_def update_conv')

lemma distinct_obj_set: "distinct (map fst obj) \<Longrightarrow> distinct (map fst (obj_set obj k v))"
  by (simp add: obj_set_def distinct_update)

lemma tally_all_snoc:
  "tally_all rts (ms @ [m]) = tally_step rts m (tally_all rts ms)"
  by (simp add: tally_all_def)

lemma tally_all_Nil: "tally_all rts [] = \<lparr> frequencyMap = [], scoreMap = [], indexMap = [] \<rparr>"
  by (simp add: tally_all_def)

lemma first_score_Cons:
  "first_score (m # ms) k = (if fst m = k then Some (snd m) else first_score ms k)"
  by (simp add: first_score_def)

lemma tally_score:
  "k \<notin> set prototype_names \<Longrightarrow> map_of (scoreMap (tally_all rts ms)) k = last_score ms k"
proof (induction ms rule: rev_induct)
  case Nil
  then show ?case by (simp add: tally_all_Nil last_score_def first_score_def)
next
  case (snoc m ms)
  from snoc.prems proto_in have "k \<noteq> js ''__proto__''" by auto
  with snoc show ?case
    by (auto simp: tally_all_snoc tally_step_def Let_def map_of_obj_set last_score_def first_score_Cons)
qed

lemma tally_index:
  "k \<notin> set prototype_names \<Longrightarrow>
     map_of (indexMap (tally_all rts ms)) k =
       (if k \<in> fst ` set ms then Some (indexOf rts (Some k)) else None)"
proof (induction ms rule: rev_induct)
  case Nil
  then show ?case by (simp add: tally_all_Nil)
next
  case (snoc m ms)
  from snoc.prems proto_in have np: "k \<noteq> js ''__proto__''" by auto
  show ?case
  proof (cases "fst m = k")
    case True
    with snoc np show ?thesis
      by (auto simp: tally_all_snoc tally_step_def Let_def map_of_obj_set obj_get_plain
          split: option.splits)
  next
    case False
    with snoc np show ?thesis
      by (auto simp: tally_all_snoc tally_step_def Let_def map_of_obj_set)
  qed
qed

lemma tally_frequency:
  "k \<notin> set prototype_names \<Longrightarrow>
     map_of (frequencyMap (tally_all rts ms)) k =
       (if k \<in> fst ` set ms then Some (Count (count_list (map fst ms) k)) else None)"
proof (induction ms rule: rev_induct)
  case Nil
  then show ?case by (simp add: tally_all_Nil)
next
  case (snoc m ms)
  from snoc.prems proto_in have np: "k \<noteq> js ''__proto__''" by auto
  show ?case
  proof (cases "fst m = k")
    case True
    with snoc np show ?thesis
      by (auto simp: tally_all_snoc tally_step_def Let_def map_of_obj_set obj_get_plain
          split: option.splits)
  next
    case False
    with snoc np show ?thesis
      by (auto simp: tally_all_snoc tally_step_def Let_def map_of_obj_set)
  qed
qed

lemma tally_prototype:
  "k \<in> set prototype_names \<Longrightarrow>
     map_of (frequencyMap (tally_all rts ms)) k = None
     \<or> map_of (frequencyMap (tally_all rts ms)) k = Some Text"
proof (induction ms rule: rev_induct)
  case Nil
  then show ?case by (simp add: tally_all_Nil)
next
  case (snoc m ms)
  then show ?case
    by (auto simp: tally_all_snoc tally_step_def Let_def map_of_obj_set obj_get_def
          split: option.splits)
qed

lemma tally_distinct: "distinct (map fst (frequencyMap (tally_all rts ms)))"
proof (induction ms rule: rev_induct)
  case Nil
  then show ?case by (simp add: tally_all_Nil)
next
  case (snoc m ms)
  then show ?case
    by (simp add: tally_all_snoc tally_step_def Let_def distinct_obj_set)
qed


lemma set_own_entries: "set (own_entries obj) = set obj"
proof -
  have "snd ` set (List.map_filter (\<lambda>p. map_option (\<lambda>n. (n, p)) (array_index (fst p))) obj)
        = {p \<in> set obj. array_index (fst p) \<noteq> None}"
    by (force simp: List.map_filter_def image_iff split: option.splits)
  then show ?thesis by (auto simp: own_entries_def)
qed

lemma most_common_cases:
  "most_common sm es (m0, mx0, sc0) = (m, mx, sc) \<Longrightarrow>
     (m, mx, sc) = (m0, mx0, sc0)
     \<or> (\<exists>k n. (k, Count n) \<in> set es \<and> m = Some k \<and> mx = n \<and> sc = number_of (obj_get sm k))"
proof (induction es arbitrary: m0 mx0 sc0)
  case Nil
  then show ?case by simp
next
  case (Cons e es)
  obtain k f where e: "e = (k, f)" by (cases e)
  show ?case
  proof (cases f)
    case Text
    with Cons.prems e have "most_common sm es (m0, mx0, sc0) = (m, mx, sc)" by simp
    from Cons.IH [OF this] show ?thesis by auto
  next
    case (Count n)
    show ?thesis
    proof (cases "mx0 < n")
      case True
      with Cons.prems e Count
      have "most_common sm es (Some k, n, number_of (obj_get sm k)) = (m, mx, sc)" by simp
      from Cons.IH [OF this] e Count show ?thesis by auto
    next
      case False
      with Cons.prems e Count have "most_common sm es (m0, mx0, sc0) = (m, mx, sc)" by simp
      from Cons.IH [OF this] show ?thesis by auto
    qed
  qed
qed

lemma vote_eq:
  assumes "most_common (scoreMap (tally_all rts ms)) (own_entries (frequencyMap (tally_all rts ms)))
             (None, 0, Some 0) = (m, mx, sc)"
  shows "vote rts ms =
     \<lparr> mostCommonMatch = m,
       mostCommonMatchIndex =
         (case m of
            None \<Rightarrow> Some (- 1)
          | Some k \<Rightarrow>
              if k = [] then Some (- 1)
              else (case obj_get (indexMap (tally_all rts ms)) k of Own i \<Rightarrow> Some i | _ \<Rightarrow> None)),
       similarityScore = sc \<rparr>"
  using assms by (simp add: vote_def Let_def)

lemma find_SomeD: "find P xs = Some x \<Longrightarrow> P x \<and> x \<in> set xs"
  by (induction xs) (auto split: if_splits)

lemma set_map_filter_id: "m \<in> set (List.map_filter id xs) \<longleftrightarrow> Some m \<in> set xs"
  by (force simp: List.map_filter_def image_iff)

lemma last_score_Some:
  "k \<in> fst ` set ms \<Longrightarrow> \<exists>s. last_score ms k = Some s \<and> (k, s) \<in> set ms"
proof -
  assume "k \<in> fst ` set ms"
  then have "\<exists>x\<in>set (rev ms). fst x = k" by auto
  then obtain x where "find (\<lambda>m. fst m = k) (rev ms) = Some x"
    by (cases "find (\<lambda>m. fst m = k) (rev ms)") (auto simp: find_None_iff)
  moreover from this have "fst x = k \<and> x \<in> set (rev ms)"
    by (rule find_SomeD)
  ultimately show ?thesis
    by (cases x) (auto simp: last_score_def first_score_def)
qed

lemma vote_winner:
  assumes "mostCommonMatch (vote rts ms) = Some k"
  shows "k \<notin> set prototype_names" and "k \<in> fst ` set ms"
    and "similarityScore (vote rts ms) = last_score ms k"
    and "mostCommonMatchIndex (vote rts ms) = (if k = [] then Some (- 1) else Some (indexOf rts (Some k)))"
proof -
  define t where "t = tally_all rts ms"
  obtain m mx sc where mc:
    "most_common (scoreMap t) (own_entries (frequencyMap t)) (None, 0, Some 0) = (m, mx, sc)"
    by (cases "most_common (scoreMap t) (own_entries (frequencyMap t)) (None, 0, Some 0)")
  note v = vote_eq [OF mc [unfolded t_def]]
  from assms v have m: "m = Some k" by simp
  with most_common_cases [OF mc] obtain n where
    n: "(k, Count n) \<in> set (own_entries (frequencyMap t))" and sc: "sc = number_of (obj_get (scoreMap t) k)"
    by auto
  from n have "(k, Count n) \<in> set (frequencyMap t)" by (simp add: set_own_entries)
  then have f: "map_of (frequencyMap t) k = Some (Count n)"
    using tally_distinct [of rts ms] by (simp add: t_def)
  show np: "k \<notin> set prototype_names"
    using tally_prototype [of k rts ms] f by (auto simp: t_def)
  show ks: "k \<in> fst ` set ms"
    using tally_frequency [OF np, of rts ms] f by (auto simp: t_def split: if_splits)
  from last_score_Some [OF ks] obtain s where s: "last_score ms k = Some s" by auto
  have "map_of (scoreMap t) k = Some s"
    using tally_score [OF np, of rts ms] s by (simp add: t_def)
  with sc np s have "sc = last_score ms k" by (simp add: obj_get_plain number_of_def)
  with v show "similarityScore (vote rts ms) = last_score ms k" by simp
  have "map_of (indexMap t) k = Some (indexOf rts (Some k))"
    using tally_index [OF np, of rts ms] ks by (simp add: t_def)
  with np have "obj_get (indexMap t) k = Own (indexOf rts (Some k))" by (simp add: obj_get_plain)
  with v m show "mostCommonMatchIndex (vote rts ms) = (if k = [] then Some (- 1) else Some (indexOf rts (Some k)))"
    by (simp add: t_def)
qed

lemma vote_no_winner:
  assumes "mostCommonMatch (vote rts ms) = None"
  shows "similarityScore (vote rts ms) = Some 0" and "mostCommonMatchIndex (vote rts ms) = Some (- 1)"
proof -
  define t where "t = tally_all rts ms"
  obtain m mx sc where mc:
    "most_common (scoreMap t) (own_entries (frequencyMap t)) (None, 0, Some 0) = (m, mx, sc)"
    by (cases "most_common (scoreMap t) (own_entries (frequencyMap t)) (None, 0, Some 0)")
  note v = vote_eq [OF mc [unfolded t_def]]
  from assms v have m: "m = None" by simp
  with most_common_cases [OF mc] have "sc = Some 0" by auto
  with v m show "similarityScore (vote rts ms) = Some 0"
    and "mostCommonMatchIndex (vote rts ms) = Some (- 1)" by simp_all
qed

lemma FindBestMatchByTitles_Inr:
  assumes "FindBestMatchByTitles lc title results = Inr res"
  shows "(\<not> truthy_opt title
            \<and> res = \<lparr> mostCommonMatch = None, mostCommonMatchIndex = Some (- 1), similarityScore = Some 0 \<rparr>)
         \<or> (\<exists>t rts ms. title = Some t \<and> truthy t \<and> resultTitles_of lc results = Inr rts
               \<and> collect_matches lc t rts = Inr ms \<and> res = vote rts ms)"
  using assms
  by (auto simp: FindBestMatchByTitles_def truthy_opt_def split: option.splits if_splits sum.splits)

lemma pick_best_in: "pick_best r rs \<in> set (r # rs)"
  by (induction rs arbitrary: r) auto

lemma those_Some: "those xs = Some ys \<Longrightarrow> xs = map Some ys"
  by (induction xs arbitrary: ys) (auto split: option.splits)

lemma findBestMatch_target:
  assumes "findBestMatch main rts = Inr b"
  shows "Some (fst b) \<in> set rts"
proof -
  from assms obtain targets r rs where
    t: "those rts = Some targets" and
    r: "map (\<lambda>t. (t, compareTwoStrings (the main) t)) targets = r # rs" and
    b: "b = pick_best r rs"
    by (auto simp: findBestMatch_def split: option.splits list.splits)
  from pick_best_in [of r rs] b r have "b \<in> set (map (\<lambda>t. (t, compareTwoStrings (the main) t)) targets)"
    by simp
  then have "fst b \<in> set targets" by auto
  with those_Some [OF t] show ?thesis by auto
qed

lemma best_for_target:
  "best_for lc title name rts = Inr (Some b) \<Longrightarrow> Some (fst b) \<in> set rts"
  by (auto simp: best_for_def split: sum.splits if_splits dest: findBestMatch_target)

lemma collect_matches_targets:
  assumes "collect_matches lc title rts = Inr ms" and "m \<in> set ms"
  shows "Some (fst m) \<in> set rts"
proof (cases "\<exists>s. title = JStr s")
  case True
  with assms show ?thesis
    by (auto simp: collect_matches_def split: sum.splits dest: findBestMatch_target)
next
  case False
  with assms obtain e r n where
    "best_for lc title (js ''english'') rts = Inr e"
    "best_for lc title (js ''romaji'') rts = Inr r"
    "best_for lc title (js ''native'') rts = Inr n"
    "ms = List.map_filter id [e, r, n]"
    by (cases title) (auto simp: collect_matches_def split: sum.splits)
  note b = this
  from assms(2) b(4) have "Some m \<in> set [e, r, n]" by (simp only: set_map_filter_id)
  with b(1-3) show ?thesis by (auto dest: best_for_target)
qed


section \<open>Evaluation on concrete titles\<close>

lemma js_nonempty: "s \<noteq> [] \<Longrightarrow> js s \<noteq> []"
  by (simp add: js_def)

lemma ci_eq_paren: "ci_eq 0x28 c \<Longrightarrow> c = 0x28"
  by (auto simp: ci_eq_def ascii_upper_def split: if_splits)

lemma match_qualifier_paren:
  assumes "match_qualifier s \<noteq> None"
  shows "0x28 \<in> set s"
proof -
  define t where "t = dropWhile is_space s"
  from assms obtain q where q: "find (\<lambda>q. ci_prefix q t) qualifiers = Some q"
    by (auto simp: match_qualifier_def Let_def t_def split: option.splits)
  then have "ci_prefix q t" "q \<in> set qualifiers" by (auto dest: find_SomeD)
  moreover have "\<forall>q\<in>set qualifiers. \<exists>r. q = 0x28 # r"
    by (simp add: qualifiers_def js_def)
  ultimately obtain r where "ci_prefix (0x28 # r) t" by auto
  then obtain c cs where "t = c # cs" "ci_eq 0x28 c" by (cases t) auto
  with ci_eq_paren have "0x28 \<in> set t" by auto
  then show ?thesis unfolding t_def by (auto dest: set_dropWhileD)
qed

lemma match_audio_paren:
  assumes "match_audio s \<noteq> None"
  shows "0x28 \<in> set s"
proof -
  define t where "t = dropWhile is_space s"
  from assms obtain r where "t = 0x28 # r"
    by (auto simp: match_audio_def Let_def t_def split: list.splits if_splits)
  then have "0x28 \<in> set t" by simp
  then show ?thesis unfolding t_def by (auto dest: set_dropWhileD)
qed

lemma no_paren_no_match:
  assumes "\<And>t. m t \<noteq> None \<Longrightarrow> 0x28 \<in> set t" and "(0x28 :: code_unit) \<notin> set s"
  shows "\<not> has_match m s"
  using assms(2)
proof (induction s)
  case Nil
  then show ?case by simp
next
  case (Cons c cs)
  have "m (c # cs) = None"
  proof (rule ccontr)
    assume "m (c # cs) \<noteq> None"
    then have "0x28 \<in> set (c # cs)" by (rule assms(1))
    with Cons.prems show False by simp
  qed
  with Cons show ?case by simp
qed

lemma sanitizeTitle_plain:
  assumes "t \<noteq> []" and "0x28 \<notin> set (lc t)"
  shows "sanitizeTitle lc (Some t) = Some (take 99 (trim (replace_first match_bd (lc t))))"
proof -
  have "\<not> has_match match_qualifier (lc t)"
    using match_qualifier_paren assms(2) by (rule no_paren_no_match)
  moreover have "\<not> has_match match_audio (lc t)"
    using match_audio_paren assms(2) by (rule no_paren_no_match)
  ultimately show ?thesis using assms(1)
    by (simp add: sanitizeTitle_def Let_def replace_first_no_match substring_0)
qed

lemmas plain_eval =
  js_def toLowerCase_basic_def match_bd_def trim_def isWhiteSpace_def ci_eq_def ascii_upper_def


lemma sanitize_spy_english:
  "sanitizeTitle toLowerCase_basic (Some (js ''Spy x Family'')) = Some (js ''spy x family'')"
  by (subst sanitizeTitle_plain) (simp_all add: plain_eval)

lemma sanitize_spy_romaji:
  "sanitizeTitle toLowerCase_basic (Some (js ''Spy Family'')) = Some (js ''spy family'')"
  by (subst sanitizeTitle_plain) (simp_all add: plain_eval)

lemma sanitize_spy_native:
  "sanitizeTitle toLowerCase_basic (Some supai_famirii) = Some supai_famirii"
  by (subst sanitizeTitle_plain) (simp_all add: plain_eval supai_famirii_def)

lemma sanitize_86_english:
  "sanitizeTitle toLowerCase_basic (Some (js ''86 Eighty-Six'')) = Some (js ''86 eighty-six'')"
  by (subst sanitizeTitle_plain) (simp_all add: plain_eval)

lemma sanitize_86:
  "sanitizeTitle toLowerCase_basic (Some (js ''86'')) = Some (js ''86'')"
  by (subst sanitizeTitle_plain) (simp_all add: plain_eval)

lemmas compare_eval = compareTwoStrings_def js_def isWhiteSpace_def bigrams_def

lemma compare_same: "compareTwoStrings s s = 1"
  by (simp add: compareTwoStrings_def)

lemma compare_spy_romaji: "compareTwoStrings (js ''spy family'') (js ''spy x family'') = 14 / 17"
  by (simp add: compare_eval)

lemma compare_spy_native: "compareTwoStrings supai_famirii (js ''spy x family'') = 0"
  by (simp add: compare_eval supai_famirii_def)

lemma compare_86_english: "compareTwoStrings (js ''86 eighty-six'') (js ''86'') = 1 / 6"
  by (simp add: compare_eval)

lemma compare_86_romaji: "compareTwoStrings (js ''86'') (js ''86 eighty-six'') = 1 / 6"
  by (simp add: compare_eval)

lemma key_neq:
  "js ''english'' \<noteq> js ''romaji''" "js ''english'' \<noteq> js ''native''" "js ''romaji'' \<noteq> js ''native''"
  "js ''romaji'' \<noteq> js ''english''" "js ''native'' \<noteq> js ''english''" "js ''native'' \<noteq> js ''romaji''"
  by (simp_all add: js_def)

lemma tally_step_record:
  "tally_step rts m \<lparr> frequencyMap = fm, scoreMap = sm, indexMap = im \<rparr> =
     \<lparr> frequencyMap = obj_set fm (fst m)
         (case obj_get fm (fst m) of
            Own (Count n) \<Rightarrow> Count (Suc n)
          | Own Text \<Rightarrow> Text
          | Inherited \<Rightarrow> Text
          | Undefined \<Rightarrow> Count 1),
       scoreMap = obj_set sm (fst m) (snd m),
       indexMap = (if obj_get im (fst m) = Undefined
                   then obj_set im (fst m) (indexOf rts (Some (fst m)))
                   else im) \<rparr>"
  by (auto simp: tally_step_def Let_def split: lookup.splits freq.splits)

lemmas collect_eval =
  collect_matches_def title_object_def best_for_def key_neq truthy_opt_def js_nonempty
  sanitizeTitle_value_def findBestMatch_def compare_same

lemmas results_eval =
  resultTitles_of_def entry_def sanitizeTitle_value_def truthy_opt_def js_nonempty

lemmas vote_eval =
  vote_def Let_def tally_all_def tally_step_record own_entries_def obj_get_plain obj_set_def
  number_of_def js_nonempty

lemma plain_spy:
  "js ''spy x family'' \<notin> set prototype_names" "js ''spy x family'' \<noteq> js ''__proto__''"
  "array_index (js ''spy x family'') = None"
  by (simp_all add: prototype_names_def js_def array_index_def is_digit_def)

lemma plain_86:
  "js ''86 eighty-six'' \<notin> set prototype_names" "js ''86 eighty-six'' \<noteq> js ''__proto__''"
  "array_index (js ''86 eighty-six'') = None"
  "js ''86'' \<notin> set prototype_names" "js ''86'' \<noteq> js ''__proto__''"
  "array_index (js ''86'') = Some 86"
  "js ''86 eighty-six'' \<noteq> js ''86''" "js ''86'' \<noteq> js ''86 eighty-six''"
  by (simp_all add: prototype_names_def js_def array_index_def is_digit_def)


lemma resultTitles_spy:
  "resultTitles_of toLowerCase_basic [entry ''Spy x Family''] = Inr [Some (js ''spy x family'')]"
  by (simp add: results_eval sanitize_spy_english)

lemma collect_spy2:
  "collect_matches toLowerCase_basic
     (title_object [(''english'', js ''Spy x Family''), (''romaji'', js ''Spy Family'')])
     [Some (js ''spy x family'')]
   = Inr [(js ''spy x family'', 1), (js ''spy x family'', 14 / 17)]"
  by (simp add: collect_eval sanitize_spy_english sanitize_spy_romaji compare_spy_romaji)

lemma vote_spy2:
  "vote [Some (js ''spy x family'')] [(js ''spy x family'', 1), (js ''spy x family'', 14 / 17)]
   = \<lparr> mostCommonMatch = Some (js ''spy x family''), mostCommonMatchIndex = Some 0,
       similarityScore = Some (14 / 17) \<rparr>"
  by (simp add: vote_eval plain_spy)

lemma find_spy2:
  "FindBestMatchByTitles toLowerCase_basic
     (Some (title_object [(''english'', js ''Spy x Family''), (''romaji'', js ''Spy Family'')]))
     [entry ''Spy x Family'']
   = Inr \<lparr> mostCommonMatch = Some (js ''spy x family''), mostCommonMatchIndex = Some 0,
           similarityScore = Some (14 / 17) \<rparr>"
  by (simp add: FindBestMatchByTitles_def resultTitles_spy collect_spy2 vote_spy2)
     (simp add: title_object_def)

lemma supai_nonempty: "supai_famirii \<noteq> []"
  by (simp add: supai_famirii_def)

lemma collect_spy3:
  "collect_matches toLowerCase_basic
     (title_object [(''english'', js ''Spy x Family''), (''romaji'', js ''Spy Family''),
                    (''native'', supai_famirii)])
     [Some (js ''spy x family'')]
   = Inr [(js ''spy x family'', 1), (js ''spy x family'', 14 / 17), (js ''spy x family'', 0)]"
  by (simp add: collect_eval supai_nonempty sanitize_spy_english sanitize_spy_romaji
      sanitize_spy_native compare_spy_romaji compare_spy_native)

lemma tally_spy3:
  "tally_all [Some (js ''spy x family'')]
     [(js ''spy x family'', 1), (js ''spy x family'', 14 / 17), (js ''spy x family'', 0)]
   = \<lparr> frequencyMap = [(js ''spy x family'', Count 3)], scoreMap = [(js ''spy x family'', 0)],
       indexMap = [(js ''spy x family'', 0)] \<rparr>"
  by (simp add: tally_all_def tally_step_record obj_get_plain obj_set_def plain_spy numeral_3_eq_3)

lemma vote_spy3:
  "vote [Some (js ''spy x family'')]
     [(js ''spy x family'', 1), (js ''spy x family'', 14 / 17), (js ''spy x family'', 0)]
   = \<lparr> mostCommonMatch = Some (js ''spy x family''), mostCommonMatchIndex = Some 0,
       similarityScore = Some 0 \<rparr>"
  by (simp add: vote_eval plain_spy)

lemma find_spy3:
  "FindBestMatchByTitles toLowerCase_basic
     (Some (title_object [(''english'', js ''Spy x Family''), (''romaji'', js ''Spy Family''),
                          (''native'', supai_famirii)]))
     [entry ''Spy x Family'']
   = Inr \<lparr> mostCommonMatch = Some (js ''spy x family''), mostCommonMatchIndex = Some 0,
           similarityScore = Some 0 \<rparr>"
  by (simp add: FindBestMatchByTitles_def resultTitles_spy collect_spy3 vote_spy3)
     (simp add: title_object_def)

lemma resultTitles_86:
  "resultTitles_of toLowerCase_basic [entry ''86 Eighty-Six'', entry ''86'']
   = Inr [Some (js ''86 eighty-six''), Some (js ''86'')]"
  by (simp add: results_eval sanitize_86_english sanitize_86)

lemma collect_86:
  "collect_matches toLowerCase_basic
     (title_object [(''english'', js ''86 Eighty-Six''), (''romaji'', js ''86'')])
     [Some (js ''86 eighty-six''), Some (js ''86'')]
   = Inr [(js ''86 eighty-six'', 1), (js ''86'', 1)]"
  by (simp add: collect_eval sanitize_86_english sanitize_86 compare_86_english compare_86_romaji)

lemma vote_86:
  "vote [Some (js ''86 eighty-six''), Some (js ''86'')] [(js ''86 eighty-six'', 1), (js ''86'', 1)]
   = \<lparr> mostCommonMatch = Some (js ''86''), mostCommonMatchIndex = Some 1, similarityScore = Some 1 \<rparr>"
  by (simp add: vote_eval plain_86)


section \<open>The score and the winner that \<open>FindBestMatchByTitles\<close> reports\<close>

text \<open>
  C1, as stated: the score reported for the winner is the score recorded at its first
  occurrence in the sequence of representations. For the title
  \<open>{english: "Spy x Family", romaji: "Spy Family"}\<close> and the single candidate
  \<open>"Spy x Family"\<close> both representations name that candidate, first with score \<open>1\<close>
  and then with score \<open>14/17\<close>, and the reported score is \<open>14/17\<close>:
  \<open>scoreMap[match.target] = match.score\<close> overwrites.
\<close>

theorem reported_score_not_first_occurrence:
  "collect_matches toLowerCase_basic
     (title_object [(''english'', js ''Spy x Family''), (''romaji'', js ''Spy Family'')])
     [Some (js ''spy x family'')]
   = Inr [(js ''spy x family'', 1), (js ''spy x family'', 14 / 17)]
   \<and> FindBestMatchByTitles toLowerCase_basic
     (Some (title_object [(''english'', js ''Spy x Family''), (''romaji'', js ''Spy Family'')]))
     [entry ''Spy x Family'']
   = Inr \<lparr> mostCommonMatch = Some (js ''spy x family''), mostCommonMatchIndex = Some 0,
           similarityScore = Some (14 / 17) \<rparr>
   \<and> Some (14 / 17)
       \<noteq> first_score [(js ''spy x family'', 1), (js ''spy x family'', 14 / 17)] (js ''spy x family'')"
  by (simp add: collect_spy2 find_spy2 first_score_def)

text \<open>
  C1, amended: whenever \<open>FindBestMatchByTitles\<close> reports a winner, the winner is the
  target of one of the matches collected for the representations, and the reported score
  is the score recorded at the winner's last occurrence in that sequence (english, then
  romaji, then native); it is no average.
\<close>

theorem reported_score_last_occurrence:
  assumes "resultTitles_of lc results = Inr resultTitles"
    and "collect_matches lc title resultTitles = Inr matches"
    and "FindBestMatchByTitles lc (Some title) results = Inr res"
    and "mostCommonMatch res = Some k"
  shows "k \<in> fst ` set matches \<and> similarityScore res = last_score matches k"
proof -
  from FindBestMatchByTitles_Inr [OF assms(3)] assms(1,2,4)
  have "res = vote resultTitles matches" by auto
  with assms(4) vote_winner(2,3) [of resultTitles matches k] show ?thesis by simp
qed

theorem reported_score_last_occurrence_witness:
  "resultTitles_of toLowerCase_basic [entry ''Spy x Family''] = Inr [Some (js ''spy x family'')]
   \<and> collect_matches toLowerCase_basic
       (title_object [(''english'', js ''Spy x Family''), (''romaji'', js ''Spy Family'')])
       [Some (js ''spy x family'')]
     = Inr [(js ''spy x family'', 1), (js ''spy x family'', 14 / 17)]
   \<and> FindBestMatchByTitles toLowerCase_basic
       (Some (title_object [(''english'', js ''Spy x Family''), (''romaji'', js ''Spy Family'')]))
       [entry ''Spy x Family'']
     = Inr \<lparr> mostCommonMatch = Some (js ''spy x family''), mostCommonMatchIndex = Some 0,
             similarityScore = Some (14 / 17) \<rparr>
   \<and> js ''spy x family'' \<in> fst ` set [(js ''spy x family'', 1 :: real), (js ''spy x family'', 14 / 17)]
   \<and> Some (14 / 17)
       = last_score [(js ''spy x family'', 1), (js ''spy x family'', 14 / 17)] (js ''spy x family'')"
  using reported_score_last_occurrence [OF resultTitles_spy collect_spy2 find_spy2]
  by (simp add: resultTitles_spy collect_spy2 find_spy2)

text \<open>
  C2, as stated: the title \<open>{english: "Spy x Family", romaji: "Spy Family", native:
  "\<dots>"}\<close> (the native title is \<open>supai_famirii\<close>) against the single candidate
  \<open>"Spy x Family"\<close> yields that candidate with vote count 1 and score 1.0. It yields
  neither: \<open>findBestMatch\<close> answers every representation with the best of the candidates,
  however low its score, so each of the three votes for the only candidate.
\<close>

theorem spy_x_family_not_one_vote_score_one:
  "collect_matches toLowerCase_basic
     (title_object [(''english'', js ''Spy x Family''), (''romaji'', js ''Spy Family''),
                    (''native'', supai_famirii)])
     [Some (js ''spy x family'')]
   = Inr [(js ''spy x family'', 1), (js ''spy x family'', 14 / 17), (js ''spy x family'', 0)]
   \<and> frequencyMap (tally_all [Some (js ''spy x family'')]
         [(js ''spy x family'', 1), (js ''spy x family'', 14 / 17), (js ''spy x family'', 0)])
       \<noteq> [(js ''spy x family'', Count 1)]
   \<and> FindBestMatchByTitles toLowerCase_basic
       (Some (title_object [(''english'', js ''Spy x Family''), (''romaji'', js ''Spy Family''),
                            (''native'', supai_famirii)]))
       [entry ''Spy x Family'']
     \<noteq> Inr \<lparr> mostCommonMatch = Some (js ''spy x family''), mostCommonMatchIndex = Some 0,
             similarityScore = Some 1 \<rparr>"
  by (simp add: collect_spy3 tally_spy3 find_spy3)

text \<open>
  C2, amended: that title against that candidate yields the candidate as the winner, at
  index 0, with vote count 3 and with score 0, the score of the native title, which is
  the last representation tallied and shares no bigram with the candidate.
\<close>

theorem spy_x_family_three_votes_score_zero:
  "resultTitles_of toLowerCase_basic [entry ''Spy x Family''] = Inr [Some (js ''spy x family'')]
   \<and> collect_matches toLowerCase_basic
       (title_object [(''english'', js ''Spy x Family''), (''romaji'', js ''Spy Family''),
                      (''native'', supai_famirii)])
       [Some (js ''spy x family'')]
     = Inr [(js ''spy x family'', 1), (js ''spy x family'', 14 / 17), (js ''spy x family'', 0)]
   \<and> frequencyMap (tally_all [Some (js ''spy x family'')]
         [(js ''spy x family'', 1), (js ''spy x family'', 14 / 17), (js ''spy x family'', 0)])
       = [(js ''spy x family'', Count 3)]
   \<and> FindBestMatchByTitles toLowerCase_basic
       (Some (title_object [(''english'', js ''Spy x Family''), (''romaji'', js ''Spy Family''),
                            (''native'', supai_famirii)]))
       [entry ''Spy x Family'']
     = Inr \<lparr> mostCommonMatch = Some (js ''spy x family''), mostCommonMatchIndex = Some 0,
             similarityScore = Some 0 \<rparr>"
  by (simp add: resultTitles_spy collect_spy3 tally_spy3 find_spy3)

text \<open>
  C4. Ties in the occurrence count are to be broken in favour of the earliest
  representation. For the title \<open>{english: "86 Eighty-Six", romaji: "86"}\<close> and the
  candidates \<open>"86 Eighty-Six"\<close> and \<open>"86"\<close>, the english title names the first
  candidate and the romaji title the second, one vote each. The loop over
  \<open>Object.entries(frequencyMap)\<close> meets the key \<open>86\<close> first, because it is an array index,
  and the strict comparison keeps it: the winner is the target of the romaji title.
\<close>

theorem tie_broken_for_later_representation:
  "collect_matches toLowerCase_basic
     (title_object [(''english'', js ''86 Eighty-Six''), (''romaji'', js ''86'')])
     [Some (js ''86 eighty-six''), Some (js ''86'')]
   = Inr [(js ''86 eighty-six'', 1), (js ''86'', 1)]
   \<and> own_entries (frequencyMap (tally_all [Some (js ''86 eighty-six''), Some (js ''86'')]
         [(js ''86 eighty-six'', 1), (js ''86'', 1)]))
       = [(js ''86'', Count 1), (js ''86 eighty-six'', Count 1)]
   \<and> FindBestMatchByTitles toLowerCase_basic
       (Some (title_object [(''english'', js ''86 Eighty-Six''), (''romaji'', js ''86'')]))
       [entry ''86 Eighty-Six'', entry ''86'']
     = Inr \<lparr> mostCommonMatch = Some (js ''86''), mostCommonMatchIndex = Some 1,
             similarityScore = Some 1 \<rparr>"
proof -
  have "own_entries (frequencyMap (tally_all [Some (js ''86 eighty-six''), Some (js ''86'')]
         [(js ''86 eighty-six'', 1), (js ''86'', 1)]))
       = [(js ''86'', Count 1), (js ''86 eighty-six'', Count 1)]"
    by (simp add: vote_eval plain_86)
  moreover have "FindBestMatchByTitles toLowerCase_basic
       (Some (title_object [(''english'', js ''86 Eighty-Six''), (''romaji'', js ''86'')]))
       [entry ''86 Eighty-Six'', entry ''86'']
     = Inr \<lparr> mostCommonMatch = Some (js ''86''), mostCommonMatchIndex = Some 1,
             similarityScore = Some 1 \<rparr>"
    by (simp add: FindBestMatchByTitles_def resultTitles_86 collect_86 vote_86)
       (simp add: title_object_def)
  ultimately show ?thesis by (simp add: collect_86)
qed

section \<open>The index that \<open>FindBestMatchByTitles\<close> reports\<close>

lemma indexOf_first:
  "x \<in> set xs \<Longrightarrow>
     \<exists>i. indexOf xs x = int i \<and> i < length xs \<and> xs ! i = x \<and> (\<forall>j<i. xs ! j \<noteq> x)"
proof (induction xs)
  case Nil
  then show ?case by simp
next
  case (Cons y ys)
  show ?case
  proof (cases "y = x")
    case True
    then show ?thesis by (intro exI [of _ 0]) simp
  next
    case False
    with Cons obtain i where i: "indexOf ys x = int i" "i < length ys" "ys ! i = x" "\<forall>j<i. ys ! j \<noteq> x"
      by auto
    have "\<forall>j<Suc i. (y # ys) ! j \<noteq> x"
    proof (intro allI impI)
      fix j assume "j < Suc i"
      with False i(4) show "(y # ys) ! j \<noteq> x" by (cases j) auto
    qed
    with False i show ?thesis by (intro exI [of _ "Suc i"]) (simp add: Let_def)
  qed
qed

lemma mapM_err_map: "mapM_err f xs = Inr ys \<Longrightarrow> map f xs = map Inr ys"
  by (induction xs arbitrary: ys) (auto split: sum.splits)

lemma resultTitles_of_titled:
  assumes "resultTitles_of lc results = Inr rts"
  shows "map (sanitized_title lc) (titled results) = map Inr rts"
proof -
  from assms obtain ts where
    ts: "mapM_err (\<lambda>r. get_prop r (js ''title'')) results = Inr ts" and
    rts: "mapM_err (sanitizeTitle_value lc) (filter (\<lambda>t. t \<noteq> None) ts) = Inr rts"
    by (auto simp: resultTitles_of_def split: sum.splits)
  have "map (\<lambda>r. get_prop r (js ''title'')) (titled results)
        = filter (\<lambda>x. x \<noteq> Inr None) (map (\<lambda>r. get_prop r (js ''title'')) results)"
    by (simp add: titled_def filter_map comp_def)
  also have "\<dots> = filter (\<lambda>x. x \<noteq> Inr None) (map Inr ts)"
    by (simp add: mapM_err_map [OF ts])
  also have "\<dots> = map Inr (filter (\<lambda>t. t \<noteq> None) ts)"
    by (simp add: filter_map comp_def)
  finally have g: "map (\<lambda>r. get_prop r (js ''title'')) (titled results)
        = map Inr (filter (\<lambda>t. t \<noteq> None) ts)" .
  have "map (sanitized_title lc) (titled results)
        = map (\<lambda>x. case x of Inl e \<Rightarrow> Inl e | Inr t \<Rightarrow> sanitizeTitle_value lc t)
            (map (\<lambda>r. get_prop r (js ''title'')) (titled results))"
    by (simp add: sanitized_title_def comp_def)
  also have "\<dots> = map (sanitizeTitle_value lc) (filter (\<lambda>t. t \<noteq> None) ts)"
    by (simp add: g comp_def)
  also have "\<dots> = map Inr rts" by (rule mapM_err_map [OF rts])
  finally show ?thesis .
qed

lemma titled_all: "(\<forall>r\<in>set results. get_prop r (js ''title'') \<noteq> Inr None) \<Longrightarrow> titled results = results"
  by (simp add: titled_def)

lemma winner_index:
  assumes "FindBestMatchByTitles lc title results = Inr res"
    and "mostCommonMatch res = Some k" and "k \<noteq> []"
  shows "\<exists>i. mostCommonMatchIndex res = Some (int i) \<and> i < length (titled results)
            \<and> sanitized_title lc (titled results ! i) = Inr (Some k)
            \<and> (\<forall>j<i. sanitized_title lc (titled results ! j) \<noteq> Inr (Some k))"
proof -
  from FindBestMatchByTitles_Inr [OF assms(1)] assms(2) obtain t rts ms where
    rts: "resultTitles_of lc results = Inr rts" and ms: "collect_matches lc t rts = Inr ms"
    and res: "res = vote rts ms" by auto
  from assms(2) res have w: "mostCommonMatch (vote rts ms) = Some k" by simp
  from vote_winner(2) [OF w] obtain m where m: "m \<in> set ms" "fst m = k" by auto
  from collect_matches_targets [OF ms m(1)] m(2) have "Some k \<in> set rts" by simp
  from indexOf_first [OF this] obtain i where
    i: "indexOf rts (Some k) = int i" "i < length rts" "rts ! i = Some k" "\<forall>j<i. rts ! j \<noteq> Some k"
    by auto
  note e = resultTitles_of_titled [OF rts]
  from e have len: "length (titled results) = length rts"
    using length_map by metis
  have nth: "sanitized_title lc (titled results ! j) = Inr (rts ! j)" if "j < length rts" for j
  proof -
    from that len have "map (sanitized_title lc) (titled results) ! j = sanitized_title lc (titled results ! j)"
      by simp
    moreover from that have "map Inr rts ! j = (Inr (rts ! j) :: error + jstring option)" by simp
    ultimately show ?thesis using e by simp
  qed
  have "\<forall>j<i. sanitized_title lc (titled results ! j) \<noteq> Inr (Some k)"
  proof (intro allI impI)
    fix j assume "j < i"
    with i(2,4) nth [of j] show "sanitized_title lc (titled results ! j) \<noteq> Inr (Some k)" by simp
  qed
  moreover from vote_winner(4) [OF w] assms(3) res i(1)
  have "mostCommonMatchIndex res = Some (int i)" by simp
  ultimately show ?thesis using i(2,3) len nth [of i] by (intro exI [of _ i]) simp
qed

lemma sanitize_naruto:
  "sanitizeTitle toLowerCase_basic (Some (js ''Naruto'')) = Some (js ''naruto'')"
  by (subst sanitizeTitle_plain) (simp_all add: plain_eval)

lemma sanitize_dub:
  "sanitizeTitle toLowerCase_basic (Some (js ''(dub)'')) = Some []"
  by (simp add: sanitize_eval)

lemma sanitize_x:
  "sanitizeTitle toLowerCase_basic (Some (js ''x'')) = Some (js ''x'')"
  by (subst sanitizeTitle_plain) (simp_all add: plain_eval)

lemma compare_x_empty: "compareTwoStrings (js ''x'') [] = 0"
  by (simp add: compare_eval)

lemma plain_naruto:
  "js ''naruto'' \<notin> set prototype_names" "js ''naruto'' \<noteq> js ''__proto__''"
  "array_index (js ''naruto'') = None"
  by (simp_all add: prototype_names_def js_def array_index_def is_digit_def)

lemma plain_empty:
  "[] \<notin> set prototype_names" "[] \<noteq> js ''__proto__''" "array_index [] = None"
  by (simp_all add: prototype_names_def js_def array_index_def)

lemma title_neq_name: "js ''name'' \<noteq> js ''title''" "js ''title'' \<noteq> js ''name''"
  by (simp_all add: js_def)

lemma find_naruto_untitled:
  "FindBestMatchByTitles toLowerCase_basic (Some (JStr (js ''Naruto'')))
     [JObj [(js ''name'', JStr (js ''Boruto''))], entry ''Naruto'']
   = Inr \<lparr> mostCommonMatch = Some (js ''naruto''), mostCommonMatchIndex = Some 0,
           similarityScore = Some 1 \<rparr>"
  by (simp add: FindBestMatchByTitles_def resultTitles_of_def entry_def sanitizeTitle_value_def
      truthy_opt_def title_neq_name sanitize_naruto collect_matches_def findBestMatch_def
      compare_same vote_eval plain_naruto)

lemma resultTitles_dub:
  "resultTitles_of toLowerCase_basic [entry ''(dub)''] = Inr [Some []]"
  by (simp add: results_eval sanitize_dub)

lemma collect_x_dub:
  "collect_matches toLowerCase_basic (JStr (js ''x'')) [Some []] = Inr [([], 0)]"
  by (simp add: collect_matches_def findBestMatch_def sanitize_x compare_x_empty)

lemma vote_empty:
  "vote [Some []] [([], 0)]
   = \<lparr> mostCommonMatch = Some [], mostCommonMatchIndex = Some (- 1), similarityScore = Some 0 \<rparr>"
  by (simp add: vote_eval plain_empty)

lemma find_x_dub:
  "FindBestMatchByTitles toLowerCase_basic (Some (JStr (js ''x''))) [entry ''(dub)'']
   = Inr \<lparr> mostCommonMatch = Some [], mostCommonMatchIndex = Some (- 1), similarityScore = Some 0 \<rparr>"
  by (simp add: FindBestMatchByTitles_def resultTitles_dub collect_x_dub vote_empty js_nonempty)

text \<open>
  C8, as stated: if the title of every candidate is defined, the returned index is the
  first position in the candidate list whose sanitized title equals the winning target.
  For the source title \<open>"x"\<close> and the single candidate \<open>"(dub)"\<close>, whose title is
  defined and is normalized to the empty string, the winning target is the empty string
  and position 0 holds it, but the returned index is \<open>-1\<close>: the test
  \<open>mostCommonMatch ? \<dots> : -1\<close> takes the empty string for no match.
\<close>

theorem index_of_empty_winner:
  "FindBestMatchByTitles toLowerCase_basic (Some (JStr (js ''x''))) [entry ''(dub)'']
   = Inr \<lparr> mostCommonMatch = Some [], mostCommonMatchIndex = Some (- 1), similarityScore = Some 0 \<rparr>
   \<and> get_prop ([entry ''(dub)''] ! 0) (js ''title'') = Inr (Some (JStr (js ''(dub)'')))
   \<and> sanitized_title toLowerCase_basic ([entry ''(dub)''] ! 0) = Inr (Some [])"
  by (simp add: find_x_dub)
     (simp add: sanitized_title_def entry_def sanitizeTitle_value_def truthy_opt_def
        js_nonempty sanitize_dub)

text \<open>
  C8, amended: the index is computed over the candidates that are left once those with
  an undefined title have been filtered out. Whenever the winning target is a non-empty
  string, the returned index is the first position in that filtered list whose sanitized
  title equals the winning target; the filtered list is the candidate list itself if
  every title is defined. If some titles are undefined the index may fail to identify
  the matched entry in the list that \<open>mapTitles\<close> reads: for the source title
  \<open>"Naruto"\<close> and the candidates \<open>{name: "Boruto"}\<close>, \<open>{title: "Naruto"}\<close> the index is
  0, where the candidate without a title stands.
\<close>

theorem index_refers_to_titled_candidates:
  assumes "FindBestMatchByTitles lc title results = Inr res"
    and "mostCommonMatch res = Some k" and "k \<noteq> []"
  shows "(\<exists>i. mostCommonMatchIndex res = Some (int i) \<and> i < length (titled results)
            \<and> sanitized_title lc (titled results ! i) = Inr (Some k)
            \<and> (\<forall>j<i. sanitized_title lc (titled results ! j) \<noteq> Inr (Some k)))
     \<and> ((\<forall>r\<in>set results. get_prop r (js ''title'') \<noteq> Inr None) \<longrightarrow> titled results = results)
     \<and> FindBestMatchByTitles toLowerCase_basic (Some (JStr (js ''Naruto'')))
         [JObj [(js ''name'', JStr (js ''Boruto''))], entry ''Naruto'']
       = Inr \<lparr> mostCommonMatch = Some (js ''naruto''), mostCommonMatchIndex = Some 0,
               similarityScore = Some 1 \<rparr>
     \<and> get_prop ([JObj [(js ''name'', JStr (js ''Boruto''))], entry ''Naruto''] ! 0) (js ''title'')
       = Inr None"
  using winner_index [OF assms] titled_all [of results] find_naruto_untitled
  by (simp add: title_neq_name)

theorem index_refers_to_titled_candidates_witness:
  "FindBestMatchByTitles toLowerCase_basic (Some (JStr (js ''Naruto'')))
         [JObj [(js ''name'', JStr (js ''Boruto''))], entry ''Naruto'']
       = Inr \<lparr> mostCommonMatch = Some (js ''naruto''), mostCommonMatchIndex = Some 0,
               similarityScore = Some 1 \<rparr>
   \<and> js ''naruto'' \<noteq> []
   \<and> titled [JObj [(js ''name'', JStr (js ''Boruto''))], entry ''Naruto''] = [entry ''Naruto'']
   \<and> sanitized_title toLowerCase_basic
        (titled [JObj [(js ''name'', JStr (js ''Boruto''))], entry ''Naruto''] ! 0)
      = Inr (Some (js ''naruto''))
   \<and> titled [entry ''Naruto''] = [entry ''Naruto'']"
  using index_refers_to_titled_candidates [OF find_naruto_untitled, of "js ''naruto''"]
  by (simp add: find_naruto_untitled)
     (simp add: js_nonempty titled_def entry_def title_neq_name sanitized_title_def
        sanitizeTitle_value_def truthy_opt_def sanitize_naruto)

section \<open>The score of a group\<close>

lemma FindBestMatchByTitles_number:
  assumes "FindBestMatchByTitles lc title results = Inr res"
  shows "\<exists>s. similarityScore res = Some s"
proof -
  from FindBestMatchByTitles_Inr [OF assms]
  consider "similarityScore res = Some 0"
    | rts ms where "res = vote rts ms"
    by auto
  then show ?thesis
  proof cases
    case 1
    then show ?thesis by simp
  next
    case 2
    show ?thesis
    proof (cases "mostCommonMatch (vote rts ms)")
      case None
      from vote_no_winner(1) [OF None] 2 show ?thesis by simp
    next
      case (Some k)
      from vote_winner(2,3) [OF Some] last_score_Some [of k ms] 2 show ?thesis by auto
    qed
  qed
qed

lemma recorded_scores_Nil: "recorded_scores lc title [] = []"
  by (simp add: recorded_scores_def)

lemma recorded_scores_Cons:
  assumes "FindBestMatchByTitles lc title otherData = Inr bestMatch"
    and "similarityScore bestMatch = Some s"
  shows "recorded_scores lc title (otherData # rest) =
     (if mostCommonMatchIndex bestMatch \<noteq> Some (- 1) then [s] else [])
     @ recorded_scores lc title rest"
  using assms by (simp add: recorded_scores_def)

lemma map_of_update_Base: "map_of (AList.update (Website i) v al) Base = map_of al Base"
  by (simp add: update_conv')

lemma match_sources_result:
  assumes "match_sources lc title i others (matches, lowestScore) = Inr (matches', lowestScore')"
  shows "lowestScore' = foldl (\<lambda>l s. Math_min l (Some s)) lowestScore (recorded_scores lc title others)
     \<and> (recorded_scores lc title others = [] \<longrightarrow> matches' = matches)
     \<and> (recorded_scores lc title others \<noteq> [] \<longrightarrow> (\<exists>j. Website j \<in> fst ` set matches'))
     \<and> fst ` set matches \<subseteq> fst ` set matches'
     \<and> map_of matches' Base = map_of matches Base"
  using assms
proof (induction others arbitrary: i matches lowestScore)
  case Nil
  then show ?case by (simp add: recorded_scores_Nil)
next
  case (Cons otherData rest)
  from Cons.prems obtain bestMatch where b: "FindBestMatchByTitles lc title otherData = Inr bestMatch"
    by (auto split: sum.splits)
  from FindBestMatchByTitles_number [OF b] obtain s where s: "similarityScore bestMatch = Some s" by auto
  note rc = recorded_scores_Cons [OF b s, of rest]
  show ?case
  proof (cases "mostCommonMatchIndex bestMatch \<noteq> Some (- 1)")
    case True
    define matches1 where
      "matches1 = AList.update (Website (i + 1)) (element otherData (mostCommonMatchIndex bestMatch)) matches"
    from Cons.prems b True s
    have "match_sources lc title (i + 1) rest (matches1, Math_min lowestScore (Some s))
          = Inr (matches', lowestScore')"
      by (simp add: matches1_def)
    from Cons.IH [OF this]
    have ih: "lowestScore' = foldl (\<lambda>l s. Math_min l (Some s)) (Math_min lowestScore (Some s))
                (recorded_scores lc title rest)"
      "fst ` set matches1 \<subseteq> fst ` set matches'" "map_of matches' Base = map_of matches1 Base"
      by auto
    have k: "fst ` set matches1 = insert (Website (i + 1)) (fst ` set matches)"
      by (simp add: matches1_def update_conv' flip: dom_map_of_conv_image_fst)
    from ih k have "Website (i + 1) \<in> fst ` set matches'" "fst ` set matches \<subseteq> fst ` set matches'"
      by auto
    moreover have "map_of matches1 Base = map_of matches Base"
      by (simp add: matches1_def map_of_update_Base)
    ultimately show ?thesis using ih(1,3) True rc by auto
  next
    case False
    with Cons.prems b
    have "match_sources lc title (i + 1) rest (matches, lowestScore) = Inr (matches', lowestScore')"
      by simp
    from Cons.IH [OF this] False rc show ?thesis by simp
  qed
qed

lemma foldl_Math_min_Num:
  "foldl (\<lambda>l s. Math_min l (Some s)) (Num a) xs = Num (Min (set (a # xs)))"
proof (induction xs arbitrary: a)
  case Nil
  then show ?case by simp
next
  case (Cons x xs)
  have "Min (insert (min a x) (set xs)) = Min (insert a (insert x (set xs)))"
    by (cases "xs = []") (auto simp: min.assoc)
  with Cons [of "min a x"] show ?case by (simp add: Math_min_def)
qed

lemma Math_min_Infinity: "Math_min Infinity (Some x) = Num x"
  by (simp add: Math_min_def)

lemma foldl_Math_min_Infinity:
  "xs \<noteq> [] \<Longrightarrow> foldl (\<lambda>l s. Math_min l (Some s)) Infinity xs = Num (Min (set xs))"
  by (cases xs) (simp_all add: Math_min_Infinity foldl_Math_min_Num)

lemma for_each_member:
  "for_each f xs = Inr gs \<Longrightarrow> g \<in> set gs \<Longrightarrow> \<exists>x\<in>set xs. f x = Inr (Some g)"
proof (induction xs arbitrary: gs)
  case Nil
  then show ?case by simp
next
  case (Cons x xs)
  from Cons.prems(1) obtain r rs where r: "f x = Inr r" and rs: "for_each f xs = Inr rs"
    and gs: "gs = (case r of None \<Rightarrow> rs | Some g \<Rightarrow> g # rs)"
    by (auto split: sum.splits)
  show ?case
  proof (cases "g \<in> set rs")
    case True
    from Cons.IH [OF rs True] show ?thesis by auto
  next
    case False
    with Cons.prems(2) gs have "r = Some g" by (cases r) auto
    with r show ?thesis by simp
  qed
qed

lemma map_item_group:
  assumes "map_item lc others baseItem = Inr (Some g)"
  shows "\<exists>title. get_prop baseItem (js ''title'') = Inr title \<and> truthy_opt title
     \<and> map_of (data g) Base = Some (Some baseItem)
     \<and> recorded_scores lc title others \<noteq> []
     \<and> (\<exists>j. Website j \<in> fst ` set (data g))
     \<and> score g = Num (Min (set (recorded_scores lc title others)))"
proof -
  from assms obtain title matches lowestScore where
    t: "get_prop baseItem (js ''title'') = Inr title" "truthy_opt title" and
    m: "match_sources lc title 1 others ([(Base, Some baseItem)], Infinity) = Inr (matches, lowestScore)" and
    l: "1 < length matches" and g: "g = \<lparr> data = matches, score = lowestScore \<rparr>"
    by (auto simp: map_item_def split: sum.splits if_splits)
  note r = match_sources_result [OF m]
  from r l have ne: "recorded_scores lc title others \<noteq> []" by auto
  with r have "lowestScore = Num (Min (set (recorded_scores lc title others)))"
    by (simp add: foldl_Math_min_Infinity)
  moreover from r have "map_of matches Base = Some (Some baseItem)" by simp
  moreover from r ne have "\<exists>j. Website j \<in> fst ` set matches" by simp
  ultimately show ?thesis using t g ne by simp
qed

text \<open>
  C5. Every group that \<open>mapTitles\<close> emits belongs to a base entry, and its score is the
  minimum of the similarity scores of the matches recorded for that entry's title, one
  per other source that matched; there is at least one of them. It is no average: a
  group whose recorded scores are 0.95 and 0.70 reports 0.70.
\<close>

theorem group_score_is_minimum:
  assumes "mapTitles lc (baseData # others) = Inr groups" and "g \<in> set groups"
  shows "\<exists>baseItem title. baseItem \<in> set baseData
     \<and> get_prop baseItem (js ''title'') = Inr title
     \<and> map_of (data g) Base = Some (Some baseItem)
     \<and> recorded_scores lc title others \<noteq> []
     \<and> score g = Num (Min (set (recorded_scores lc title others)))"
proof -
  from assms(1) have "for_each (map_item lc others) baseData = Inr groups"
    by (simp add: mapTitles_def)
  from for_each_member [OF this assms(2)] obtain baseItem where
    b: "baseItem \<in> set baseData" "map_item lc others baseItem = Inr (Some g)" by auto
  from map_item_group [OF b(2)] b(1) show ?thesis by blast
qed

text \<open>
  C10. The score of an emitted group is never the \<open>Infinity\<close> that the running minimum
  starts with, nor \<open>NaN\<close>: a group is pushed only if some other source contributed a
  match, stored under a key \<open>website\<dots>\<close>, and every contributed match has updated the
  minimum with a number.
\<close>

theorem group_score_never_Infinity:
  assumes "mapTitles lc extractedData = Inr groups" and "g \<in> set groups"
  shows "score g \<noteq> Infinity \<and> score g \<noteq> NaN \<and> (\<exists>j. Website j \<in> fst ` set (data g))"
proof -
  from assms(1) obtain baseData others where e: "extractedData = baseData # others"
    by (cases extractedData) (auto simp: mapTitles_def)
  with assms(1) have "for_each (map_item lc others) baseData = Inr groups"
    by (simp add: mapTitles_def)
  from for_each_member [OF this assms(2)] obtain baseItem where
    "map_item lc others baseItem = Inr (Some g)" by auto
  from map_item_group [OF this] show ?thesis by auto
qed


lemma get_prop_entry: "get_prop (entry t) (js ''title'') = Inr (Some (JStr (js t)))"
  by (simp add: entry_def)

lemma truthy_entry: "truthy (entry t)"
  by (simp add: entry_def)

lemma sanitize_abc:
  "sanitizeTitle toLowerCase_basic (Some (js ''abcdefghijklmnopqrstu'')) = Some (js ''abcdefghijklmnopqrstu'')"
  "sanitizeTitle toLowerCase_basic (Some (js ''abcdefghijklmnopqrstx'')) = Some (js ''abcdefghijklmnopqrstx'')"
  "sanitizeTitle toLowerCase_basic (Some (js ''abxdefyhijzlmnopqrstu'')) = Some (js ''abxdefyhijzlmnopqrstu'')"
  by (subst sanitizeTitle_plain, simp_all add: plain_eval)+

lemma compare_abc_near:
  "compareTwoStrings (js ''abcdefghijklmnopqrstu'') (js ''abcdefghijklmnopqrstx'') = 19 / 20"
  by (simp add: compare_eval)

lemma compare_abc_far:
  "compareTwoStrings (js ''abcdefghijklmnopqrstu'') (js ''abxdefyhijzlmnopqrstu'') = 7 / 10"
  by (simp add: compare_eval)

lemma plain_abc:
  "js ''abcdefghijklmnopqrstx'' \<notin> set prototype_names"
  "js ''abcdefghijklmnopqrstx'' \<noteq> js ''__proto__''"
  "array_index (js ''abcdefghijklmnopqrstx'') = None"
  "js ''abxdefyhijzlmnopqrstu'' \<notin> set prototype_names"
  "js ''abxdefyhijzlmnopqrstu'' \<noteq> js ''__proto__''"
  "array_index (js ''abxdefyhijzlmnopqrstu'') = None"
  by (simp_all add: prototype_names_def js_def array_index_def is_digit_def)

lemmas find_eval =
  FindBestMatchByTitles_def resultTitles_of_def get_prop_entry sanitizeTitle_value_def
  truthy_opt_def collect_matches_def findBestMatch_def vote_eval

lemma find_abc_near:
  "FindBestMatchByTitles toLowerCase_basic (Some (JStr (js ''abcdefghijklmnopqrstu'')))
     [entry ''abcdefghijklmnopqrstx'']
   = Inr \<lparr> mostCommonMatch = Some (js ''abcdefghijklmnopqrstx''), mostCommonMatchIndex = Some 0,
           similarityScore = Some (19 / 20) \<rparr>"
  by (simp add: find_eval sanitize_abc compare_abc_near plain_abc)

lemma find_abc_far:
  "FindBestMatchByTitles toLowerCase_basic (Some (JStr (js ''abcdefghijklmnopqrstu'')))
     [entry ''abxdefyhijzlmnopqrstu'']
   = Inr \<lparr> mostCommonMatch = Some (js ''abxdefyhijzlmnopqrstu''), mostCommonMatchIndex = Some 0,
           similarityScore = Some (7 / 10) \<rparr>"
  by (simp add: find_eval sanitize_abc compare_abc_far plain_abc)

lemma recorded_abc:
  "recorded_scores toLowerCase_basic (Some (JStr (js ''abcdefghijklmnopqrstu'')))
     [[entry ''abcdefghijklmnopqrstx''], [entry ''abxdefyhijzlmnopqrstu'']]
   = [19 / 20, 7 / 10]"
  by (simp add: recorded_scores_def find_abc_near find_abc_far)

lemma mapTitles_abc:
  "mapTitles toLowerCase_basic
     [[entry ''abcdefghijklmnopqrstu''], [entry ''abcdefghijklmnopqrstx''],
      [entry ''abxdefyhijzlmnopqrstu'']]
   = Inr [\<lparr> data = [(Base, Some (entry ''abcdefghijklmnopqrstu'')),
                      (Website 2, Some (entry ''abcdefghijklmnopqrstx'')),
                      (Website 3, Some (entry ''abxdefyhijzlmnopqrstu''))],
              score = Num (7 / 10) \<rparr>]"
  by (simp add: mapTitles_def map_item_def get_prop_entry truthy_entry truthy_opt_def js_nonempty
      find_abc_near find_abc_far element_def Math_min_def numeral_2_eq_2 numeral_3_eq_3)

theorem group_score_is_minimum_witness:
  "mapTitles toLowerCase_basic
     [[entry ''abcdefghijklmnopqrstu''], [entry ''abcdefghijklmnopqrstx''],
      [entry ''abxdefyhijzlmnopqrstu'']]
   = Inr [\<lparr> data = [(Base, Some (entry ''abcdefghijklmnopqrstu'')),
                      (Website 2, Some (entry ''abcdefghijklmnopqrstx'')),
                      (Website 3, Some (entry ''abxdefyhijzlmnopqrstu''))],
              score = Num (7 / 10) \<rparr>]
   \<and> recorded_scores toLowerCase_basic (Some (JStr (js ''abcdefghijklmnopqrstu'')))
       [[entry ''abcdefghijklmnopqrstx''], [entry ''abxdefyhijzlmnopqrstu'']]
     = [19 / 20, 7 / 10]
   \<and> Num (7 / 10) = Num (Min (set [19 / 20, 7 / 10]))"
  using group_score_is_minimum [OF mapTitles_abc,
      of "\<lparr> data = [(Base, Some (entry ''abcdefghijklmnopqrstu'')),
                      (Website 2, Some (entry ''abcdefghijklmnopqrstx'')),
                      (Website 3, Some (entry ''abxdefyhijzlmnopqrstu''))],
              score = Num (7 / 10) \<rparr>"]
  by (simp add: mapTitles_abc recorded_abc)

lemma find_naruto:
  "FindBestMatchByTitles toLowerCase_basic (Some (JStr (js ''Naruto''))) [entry ''Naruto'']
   = Inr \<lparr> mostCommonMatch = Some (js ''naruto''), mostCommonMatchIndex = Some 0,
           similarityScore = Some 1 \<rparr>"
  by (simp add: find_eval sanitize_naruto compare_same plain_naruto)

lemma mapTitles_naruto:
  "mapTitles toLowerCase_basic [[entry ''Naruto''], [entry ''Naruto'']]
   = Inr [\<lparr> data = [(Base, Some (entry ''Naruto'')), (Website 2, Some (entry ''Naruto''))],
              score = Num 1 \<rparr>]"
  by (simp add: mapTitles_def map_item_def get_prop_entry truthy_entry truthy_opt_def js_nonempty
      find_naruto element_def Math_min_def numeral_2_eq_2)

theorem group_score_never_Infinity_witness:
  "mapTitles toLowerCase_basic [[entry ''Naruto''], [entry ''Naruto'']]
   = Inr [\<lparr> data = [(Base, Some (entry ''Naruto'')), (Website 2, Some (entry ''Naruto''))],
              score = Num 1 \<rparr>]
   \<and> Num 1 \<noteq> Infinity \<and> Num 1 \<noteq> NaN
   \<and> Website 2 \<in> fst ` set [(Base, Some (entry ''Naruto'')), (Website 2, Some (entry ''Naruto''))]"
  using group_score_never_Infinity [OF mapTitles_naruto,
      of "\<lparr> data = [(Base, Some (entry ''Naruto'')), (Website 2, Some (entry ''Naruto''))],
              score = Num 1 \<rparr>"]
  by (simp add: mapTitles_naruto)

section \<open>The winner among targets that are neither array indices nor names of the prototype\<close>

lemma most_common_snoc:
  "most_common sm (es @ [e]) st = most_common sm [e] (most_common sm es st)"
proof (induction es arbitrary: st)
  case Nil
  then show ?case by simp
next
  case (Cons a es)
  obtain k f where a: "a = (k, f)" by (cases a)
  obtain m mx sc where st: "st = (m, mx, sc)" by (cases st)
  show ?case unfolding a st by (simp add: Cons.IH)
qed

lemma most_common_first_maximum:
  assumes "most_common sm es (None, 0, Some 0) = (m, mx, sc)" and "distinct (map fst es)"
  shows "(\<forall>k n. (k, Count n) \<in> set es \<longrightarrow> n \<le> mx)
     \<and> (case m of
          None \<Rightarrow> mx = 0
        | Some k \<Rightarrow> 0 < mx \<and> (k, Count mx) \<in> set es
            \<and> (\<forall>k' n. (k', Count n) \<in> set (takeWhile (\<lambda>e. fst e \<noteq> k) es) \<longrightarrow> n < mx))"
  using assms
proof (induction es arbitrary: m mx sc rule: rev_induct)
  case Nil
  then show ?case by simp
next
  case (snoc e es)
  obtain k f where e: "e = (k, f)" by (cases e)
  obtain m0 mx0 sc0 where r0: "most_common sm es (None, 0, Some 0) = (m0, mx0, sc0)"
    by (cases "most_common sm es (None, 0, Some 0)")
  from snoc.prems(2) have d: "distinct (map fst es)" and kn: "k \<notin> fst ` set es"
    by (auto simp: e)
  note ih = snoc.IH [OF r0 d]
  from snoc.prems(1) have step: "most_common sm [e] (m0, mx0, sc0) = (m, mx, sc)"
    by (simp add: most_common_snoc r0)
  have keep: "takeWhile (\<lambda>e. fst e \<noteq> k0) (es @ [e]) = takeWhile (\<lambda>e. fst e \<noteq> k0) es"
    if "(k0, v) \<in> set es" for k0 v
    using that by (intro takeWhile_append1 [of "(k0, v)"]) simp_all
  show ?case
  proof (cases "\<exists>n. f = Count n \<and> mx0 < n")
    case True
    then obtain n where n: "f = Count n" "mx0 < n" by auto
    with step e have res: "m = Some k" "mx = n" by simp_all
    have all: "takeWhile (\<lambda>e. fst e \<noteq> k) (es @ [e]) = es"
      using kn by (auto simp: e takeWhile_append)
    from ih n have lt: "\<forall>k' n'. (k', Count n') \<in> set es \<longrightarrow> n' < n" by fastforce
    then have "\<forall>k' n'. (k', Count n') \<in> set es \<longrightarrow> n' \<le> n" by (meson less_imp_le)
    with lt res n e all show ?thesis by auto
  next
    case False
    with step e have res: "m = m0" "mx = mx0" by (cases f; simp)+
    from False have le: "\<And>n. f = Count n \<Longrightarrow> n \<le> mx0" by auto
    show ?thesis
    proof (cases m0)
      case None
      with ih res le e show ?thesis by auto
    next
      case (Some k0)
      with ih have "(k0, Count mx0) \<in> set es" by simp
      from keep [OF this] ih res le e Some show ?thesis by auto
    qed
  qed
qed

lemma own_entries_plain:
  "(\<forall>p\<in>set obj. array_index (fst p) = None) \<Longrightarrow> own_entries obj = obj"
proof -
  assume a: "\<forall>p\<in>set obj. array_index (fst p) = None"
  then have "List.map_filter (\<lambda>p. map_option (\<lambda>n. (n, p)) (array_index (fst p))) obj = []"
    by (induction obj) simp_all
  with a show ?thesis by (simp add: own_entries_def)
qed

lemma tally_keys_snoc:
  assumes "fst m \<notin> set prototype_names"
  shows "map fst (frequencyMap (tally_all rts (ms @ [m]))) =
     (if fst m \<in> set (map fst (frequencyMap (tally_all rts ms)))
      then map fst (frequencyMap (tally_all rts ms))
      else map fst (frequencyMap (tally_all rts ms)) @ [fst m])"
proof -
  from assms proto_in have "fst m \<noteq> js ''__proto__''" by auto
  then show ?thesis
    by (simp add: tally_all_snoc tally_step_def Let_def obj_set_def update_keys)
qed

lemma tally_keys_set:
  assumes "\<forall>m\<in>set ms. fst m \<notin> set prototype_names"
  shows "set (map fst (frequencyMap (tally_all rts ms))) = fst ` set ms"
proof -
  have "k \<in> fst ` set (frequencyMap (tally_all rts ms)) \<longleftrightarrow> k \<in> fst ` set ms" for k
  proof (cases "k \<in> set prototype_names")
    case False
    from tally_frequency [OF False, of rts ms] show ?thesis
      by (auto simp: dom_map_of_conv_image_fst [symmetric] dom_def split: if_splits)
  next
    case True
    with assms have n: "k \<notin> fst ` set ms" by auto
    have "k \<notin> fst ` set (frequencyMap (tally_all rts ms))"
      using assms
    proof (induction ms rule: rev_induct)
      case Nil
      then show ?case by (simp add: tally_all_Nil)
    next
      case (snoc m ms)
      then have "fst m \<notin> set prototype_names" by simp
      with True have "fst m \<noteq> k" by auto
      with snoc tally_keys_snoc [OF \<open>fst m \<notin> set prototype_names\<close>, of rts ms]
      have "k \<notin> set (map fst (frequencyMap (tally_all rts (ms @ [m]))))"
        by (auto split: if_splits)
      then show ?case by simp
    qed
    with n show ?thesis by simp
  qed
  then show ?thesis by auto
qed

lemma tally_keys_before:
  assumes "\<forall>m\<in>set ms. fst m \<notin> set prototype_names" and "k \<in> fst ` set ms"
  shows "set (takeWhile (\<lambda>x. x \<noteq> k) (map fst (frequencyMap (tally_all rts ms))))
       = set (takeWhile (\<lambda>x. x \<noteq> k) (map fst ms))"
  using assms
proof (induction ms rule: rev_induct)
  case Nil
  then show ?case by simp
next
  case (snoc m ms)
  then have pm: "fst m \<notin> set prototype_names" and pms: "\<forall>m\<in>set ms. fst m \<notin> set prototype_names"
    by simp_all
  note ks = tally_keys_snoc [OF pm, of rts ms]
  note st = tally_keys_set [OF pms, of rts]
  show ?case
  proof (cases "k \<in> fst ` set ms")
    case True
    then have a: "k \<in> set (map fst ms)" by simp
    with st have b: "k \<in> set (map fst (frequencyMap (tally_all rts ms)))" by simp
    have "takeWhile (\<lambda>x. x \<noteq> k) (map fst (ms @ [m])) = takeWhile (\<lambda>x. x \<noteq> k) (map fst ms)"
      using a by (simp del: set_map)
    moreover have "takeWhile (\<lambda>x. x \<noteq> k) (map fst (frequencyMap (tally_all rts (ms @ [m]))))
        = takeWhile (\<lambda>x. x \<noteq> k) (map fst (frequencyMap (tally_all rts ms)))"
      using b unfolding ks by (simp del: set_map)
    ultimately show ?thesis using snoc.IH [OF pms True] by simp
  next
    case False
    with snoc.prems(2) have km: "fst m = k" by auto
    from False st have nk: "k \<notin> set (map fst (frequencyMap (tally_all rts ms)))" by simp
    from False have "\<forall>x\<in>set (map fst ms). x \<noteq> k" by auto
    then have "takeWhile (\<lambda>x. x \<noteq> k) (map fst (ms @ [m])) = map fst ms"
      using km by (simp add: takeWhile_append del: set_map)
    moreover from nk have "takeWhile (\<lambda>x. x \<noteq> k) (map fst (frequencyMap (tally_all rts (ms @ [m]))))
        = map fst (frequencyMap (tally_all rts ms))"
      unfolding ks using km by (auto simp: takeWhile_append simp del: set_map)
    ultimately show ?thesis using st by simp
  qed
qed

text \<open>
  Where no target is an array index or a name of the prototype, the winner is a target
  of the highest occurrence count, and every target named before its first occurrence
  has a strictly lower count: ties go to the earliest representation.
\<close>

lemma winner_highest_count_earliest:
  assumes "\<forall>m\<in>set ms. fst m \<notin> set prototype_names \<and> array_index (fst m) = None"
    and "mostCommonMatch (vote rts ms) = Some k"
  shows "k \<in> fst ` set ms
     \<and> (\<forall>k'\<in>fst ` set ms. count_list (map fst ms) k' \<le> count_list (map fst ms) k)
     \<and> (\<forall>k'\<in>set (takeWhile (\<lambda>x. x \<noteq> k) (map fst ms)).
           count_list (map fst ms) k' < count_list (map fst ms) k)"
proof -
  define fm where "fm = frequencyMap (tally_all rts ms)"
  from assms(1) have plain: "\<forall>m\<in>set ms. fst m \<notin> set prototype_names" by simp
  have keys: "set (map fst fm) = fst ` set ms"
    unfolding fm_def by (rule tally_keys_set [OF plain])
  have d: "distinct (map fst fm)" unfolding fm_def by (rule tally_distinct)
  have ent: "(k', f) \<in> set fm \<longleftrightarrow> k' \<in> fst ` set ms \<and> f = Count (count_list (map fst ms) k')" for k' f
  proof
    assume a: "(k', f) \<in> set fm"
    then have "k' \<in> set (map fst fm)" by force
    with keys have k': "k' \<in> fst ` set ms" by simp
    with plain have "k' \<notin> set prototype_names" by auto
    from tally_frequency [OF this, of rts ms] k' a d
    show "k' \<in> fst ` set ms \<and> f = Count (count_list (map fst ms) k')"
      by (simp add: fm_def)
  next
    assume a: "k' \<in> fst ` set ms \<and> f = Count (count_list (map fst ms) k')"
    with plain have "k' \<notin> set prototype_names" by auto
    from tally_frequency [OF this, of rts ms] a
    have "map_of fm k' = Some f" by (simp add: fm_def)
    then show "(k', f) \<in> set fm" by (rule map_of_SomeD)
  qed
  have "\<forall>p\<in>set fm. array_index (fst p) = None"
  proof
    fix p assume "p \<in> set fm"
    then have "fst p \<in> set (map fst fm)" by simp
    with keys assms(1) show "array_index (fst p) = None" by auto
  qed
  then have oe: "own_entries fm = fm" by (rule own_entries_plain)
  obtain m mx sc where mc:
    "most_common (scoreMap (tally_all rts ms)) fm (None, 0, Some 0) = (m, mx, sc)"
    by (cases "most_common (scoreMap (tally_all rts ms)) fm (None, 0, Some 0)")
  then have "most_common (scoreMap (tally_all rts ms)) (own_entries (frequencyMap (tally_all rts ms)))
      (None, 0, Some 0) = (m, mx, sc)" by (simp add: oe fm_def [symmetric])
  from vote_eq [OF this] assms(2) have m: "m = Some k" by simp
  from most_common_first_maximum [OF mc d] m
  have max: "\<forall>k' n. (k', Count n) \<in> set fm \<longrightarrow> n \<le> mx"
    and win: "(k, Count mx) \<in> set fm"
    and before: "\<forall>k' n. (k', Count n) \<in> set (takeWhile (\<lambda>e. fst e \<noteq> k) fm) \<longrightarrow> n < mx"
    by simp_all
  from win ent have k: "k \<in> fst ` set ms" and mx: "mx = count_list (map fst ms) k" by auto
  have 1: "\<forall>k'\<in>fst ` set ms. count_list (map fst ms) k' \<le> count_list (map fst ms) k"
    using max ent mx by blast
  have 2: "\<forall>k'\<in>set (takeWhile (\<lambda>x. x \<noteq> k) (map fst ms)).
           count_list (map fst ms) k' < count_list (map fst ms) k"
  proof
    fix k' assume "k' \<in> set (takeWhile (\<lambda>x. x \<noteq> k) (map fst ms))"
    with tally_keys_before [OF plain k, of rts]
    have "k' \<in> set (takeWhile (\<lambda>x. x \<noteq> k) (map fst fm))" by (simp add: fm_def)
    then have "k' \<in> fst ` set (takeWhile (\<lambda>e. fst e \<noteq> k) fm)"
      by (simp add: takeWhile_map comp_def)
    then obtain f where f: "(k', f) \<in> set (takeWhile (\<lambda>e. fst e \<noteq> k) fm)" by auto
    then have "(k', f) \<in> set fm" by (rule set_takeWhileD [THEN conjunct1])
    with ent have "f = Count (count_list (map fst ms) k')" by simp
    with f before mx show "count_list (map fst ms) k' < count_list (map fst ms) k" by blast
  qed
  from k 1 2 show ?thesis by simp
qed

lemma sanitize_constructor:
  "sanitizeTitle toLowerCase_basic (Some (js ''Constructor'')) = Some (js ''constructor'')"
  by (subst sanitizeTitle_plain) (simp_all add: plain_eval)

text \<open>
  A target that is a name of the prototype never wins: \<open>"Constructor"\<close> matched against the
  single candidate \<open>"Constructor"\<close> is reported as no match.
\<close>

lemma find_constructor:
  "FindBestMatchByTitles toLowerCase_basic (Some (JStr (js ''Constructor''))) [entry ''Constructor'']
   = Inr \<lparr> mostCommonMatch = None, mostCommonMatchIndex = Some (- 1), similarityScore = Some 0 \<rparr>"
  by (simp add: FindBestMatchByTitles_def resultTitles_of_def get_prop_entry sanitizeTitle_value_def
      truthy_opt_def js_nonempty collect_matches_def findBestMatch_def sanitize_constructor
      compare_same vote_def Let_def tally_all_def tally_step_record own_entries_def
      number_of_def)
     (simp add: obj_get_def obj_set_def prototype_names_def js_def array_index_def is_digit_def)

end
